theory Spec2Isabelle
  imports Complex_Main "HOL-Library.Multiset" "HOL-Library.Char_ord" "HOL-Library.List_Lexorder"
begin

section \<open>Synchronized room playback: the data model\<close>

text \<open>
  The embedding follows \<^verbatim>\<open>src/services/roomPlaybackService.ts\<close>,
  \<^verbatim>\<open>src/services/roomQueueService.ts\<close> and the room synchronisation effects of the
  music player provider. A JavaScript \<^verbatim>\<open>number\<close> is a \<^typ>\<open>real\<close> (the realtime
  database stores no NaN and no infinity); a field the code tests with
  \<^verbatim>\<open>typeof x === 'number'\<close> or \<^verbatim>\<open>typeof x === 'string'\<close> is an option, \<open>None\<close>
  standing for every value that fails the test (absent, null, or of another type).
\<close>

record songMeta =
  title :: string
  artist :: string
  thumbnail :: string

text \<open>The record stored at \<^verbatim>\<open>rooms/<roomId>/playback\<close> (interface \<^verbatim>\<open>PlaybackState\<close>).\<close>

record PlaybackState =
  songId :: string
  songMeta :: "songMeta option"
  isPlaying :: bool
  position :: "real option"
  volume :: real
  initiator :: string
  opId :: "string option"
  version :: "real option"
  updatedAt :: real
  startServerTs :: "real option"

text \<open>
  The object handed to \<^verbatim>\<open>update(ref, {...})\<close>: the store merges it into the record, key by
  key. \<open>None\<close> is a key the object does not have; for \<open>u_startServerTs\<close>, \<open>Some None\<close> is the
  key written as \<^verbatim>\<open>null\<close>.
\<close>

record PlaybackUpdate =
  u_isPlaying :: "bool option"
  u_position :: "real option"
  u_initiator :: "string option"
  u_opId :: "string option"
  u_version :: "real option"
  u_updatedAt :: "real option"
  u_startServerTs :: "real option option"

datatype dbWrite = DbSet PlaybackState | DbUpdate PlaybackUpdate

definition merge_update :: "PlaybackUpdate \<Rightarrow> PlaybackState \<Rightarrow> PlaybackState" where
  "merge_update u r =
     r\<lparr> isPlaying := (case u_isPlaying u of None \<Rightarrow> isPlaying r | Some b \<Rightarrow> b),
        position := (case u_position u of None \<Rightarrow> position r | Some p \<Rightarrow> Some p),
        initiator := (case u_initiator u of None \<Rightarrow> initiator r | Some i \<Rightarrow> i),
        opId := (case u_opId u of None \<Rightarrow> opId r | Some i \<Rightarrow> Some i),
        version := (case u_version u of None \<Rightarrow> version r | Some v \<Rightarrow> Some v),
        updatedAt := (case u_updatedAt u of None \<Rightarrow> updatedAt r | Some t \<Rightarrow> t),
        startServerTs := (case u_startServerTs u of None \<Rightarrow> startServerTs r | Some t \<Rightarrow> t) \<rparr>"

text \<open>
  What a write (or no write) makes of the stored record; \<open>None\<close> is a record that does not
  exist. Every \<^verbatim>\<open>update\<close> of the service is issued after a read that found a record, so the
  merge into a missing record (which the store would turn into a partial object) is left as
  the missing record.
\<close>

fun apply_write :: "dbWrite option \<Rightarrow> PlaybackState option \<Rightarrow> PlaybackState option" where
  "apply_write None cur = cur"
| "apply_write (Some (DbSet r)) cur = Some r"
| "apply_write (Some (DbUpdate u)) None = None"
| "apply_write (Some (DbUpdate u)) (Some r) = Some (merge_update u r)"

definition commit :: "string \<Rightarrow> dbWrite option \<Rightarrow> (string \<rightharpoonup> PlaybackState) \<Rightarrow> (string \<rightharpoonup> PlaybackState)" where
  "commit roomId w db = db(roomId := apply_write w (db roomId))"

section \<open>RoomPlaybackService\<close>

text \<open>
  The fields of the service object that its operations read or assign. \<open>seekThrottle\<close> is
  whether the timer handle is set. The maps of unsubscribe functions and interval handles
  hold no data of the protocol and are not modelled.
\<close>

record RoomPlaybackService =
  lastUserOpId :: "string option"
  seekThrottle :: bool
  serverTimeOffsetMs :: real

text \<open>
  What an operation reads from outside: \<^verbatim>\<open>Date.now()\<close>, the six characters cut from
  \<^verbatim>\<open>Math.random().toString(36)\<close>, and the time the server puts in place of
  \<^verbatim>\<open>serverTimestamp()\<close> (one value for every placeholder of a write).
\<close>

record env =
  dateNow :: nat
  randomSuffix :: string
  serverTs :: real

fun decimal :: "nat \<Rightarrow> string" where
  "decimal n =
     (if n < 10 then [''0123456789'' ! n] else decimal (n div 10) @ [''0123456789'' ! (n mod 10)])"

declare decimal.simps [simp del]

definition nowServerMs :: "RoomPlaybackService \<Rightarrow> nat \<Rightarrow> real" where
  "nowServerMs svc now = real now + serverTimeOffsetMs svc"

definition generateOpId :: "env \<Rightarrow> string" where
  "generateOpId e = decimal (dateNow e) @ ''-'' @ randomSuffix e"

definition getNextVersion :: "PlaybackState option \<Rightarrow> real" where
  "getNextVersion current =
     (case current of
        None \<Rightarrow> 1
      | Some c \<Rightarrow> (case version c of Some v \<Rightarrow> v + 1 | None \<Rightarrow> 1))"

text \<open>
  Each operation is given the record its \<^verbatim>\<open>get\<close> returned and gives back the service, the
  write it issues (\<open>None\<close>: it returns without writing) and, for \<open>playSong\<close>, its result.
  \<open>playSong\<close> takes the optional \<^verbatim>\<open>volume\<close> argument, 80 when left out. The read and the
  write of one call are one step of the model: what other clients write between the two is
  not modelled, and a write is taken to succeed.
\<close>

definition playSong ::
  "RoomPlaybackService \<Rightarrow> PlaybackState option \<Rightarrow> string \<Rightarrow> string \<Rightarrow> songMeta \<Rightarrow> real option \<Rightarrow> env
     \<Rightarrow> RoomPlaybackService \<times> dbWrite option \<times> string" where
  "playSong svc current userId sid meta vol e =
     (let newOp = generateOpId e;
          svc' = svc\<lparr>lastUserOpId := Some newOp\<rparr>
      in (svc',
          Some (DbSet \<lparr> songId = sid,
                         songMeta = Some meta,
                         isPlaying = True,
                         position = Some 0,
                         volume = (case vol of None \<Rightarrow> 80 | Some v \<Rightarrow> v),
                         initiator = userId,
                         opId = Some newOp,
                         version = Some (getNextVersion current),
                         updatedAt = serverTs e,
                         startServerTs = Some (serverTs e) \<rparr>),
          newOp))"

definition pause ::
  "RoomPlaybackService \<Rightarrow> PlaybackState option \<Rightarrow> string \<Rightarrow> real \<Rightarrow> env
     \<Rightarrow> RoomPlaybackService \<times> dbWrite option" where
  "pause svc current userId pos e =
     (case current of
        None \<Rightarrow> (svc, None)
      | Some c \<Rightarrow>
          (let newOp = generateOpId e;
               svc' = svc\<lparr>lastUserOpId := Some newOp\<rparr>
           in (svc',
               Some (DbUpdate \<lparr> u_isPlaying = Some False,
                                 u_position = Some pos,
                                 u_initiator = Some userId,
                                 u_opId = Some newOp,
                                 u_version = Some (getNextVersion current),
                                 u_updatedAt = Some (serverTs e),
                                 u_startServerTs = Some None \<rparr>))))"

definition resume ::
  "RoomPlaybackService \<Rightarrow> PlaybackState option \<Rightarrow> string \<Rightarrow> real \<Rightarrow> env
     \<Rightarrow> RoomPlaybackService \<times> dbWrite option" where
  "resume svc current userId pos e =
     (case current of
        None \<Rightarrow> (svc, None)
      | Some c \<Rightarrow>
          (let newOp = generateOpId e;
               svc' = svc\<lparr>lastUserOpId := Some newOp\<rparr>
           in (svc',
               Some (DbUpdate \<lparr> u_isPlaying = Some True,
                                 u_position = Some pos,
                                 u_initiator = Some userId,
                                 u_opId = Some newOp,
                                 u_version = Some (getNextVersion current),
                                 u_updatedAt = Some (serverTs e),
                                 u_startServerTs = Some (Some (serverTs e)) \<rparr>))))"

text \<open>
  \<open>seek\<close> returns at once while the throttle timer is set. Otherwise it sets the timer
  before it reads the record, so the timer is set also when the record is missing.
\<close>

definition seek ::
  "RoomPlaybackService \<Rightarrow> PlaybackState option \<Rightarrow> string \<Rightarrow> real \<Rightarrow> bool \<Rightarrow> env
     \<Rightarrow> RoomPlaybackService \<times> dbWrite option" where
  "seek svc current userId pos playing e =
     (if seekThrottle svc then (svc, None)
      else
        (let svc1 = svc\<lparr>seekThrottle := True\<rparr>
         in case current of
              None \<Rightarrow> (svc1, None)
            | Some c \<Rightarrow>
                (let newOp = generateOpId e;
                     svc2 = svc1\<lparr>lastUserOpId := Some newOp\<rparr>
                 in (svc2,
                     Some (DbUpdate \<lparr> u_isPlaying = Some playing,
                                       u_position = Some pos,
                                       u_initiator = Some userId,
                                       u_opId = Some newOp,
                                       u_version = Some (getNextVersion current),
                                       u_updatedAt = Some (serverTs e),
                                       u_startServerTs =
                                         Some (if playing then Some (serverTs e) else None) \<rparr>)))))"

text \<open>The callback of the 250 ms timer that \<open>seek\<close> sets.\<close>

definition seekThrottleTimeout :: "RoomPlaybackService \<Rightarrow> RoomPlaybackService" where
  "seekThrottleTimeout svc = svc\<lparr>seekThrottle := False\<rparr>"

text \<open>
  The \<^verbatim>\<open>onValue\<close> callback of \<open>subscribe\<close>: from the snapshot and \<^verbatim>\<open>Date.now()\<close>, the three
  arguments it passes to the subscriber. \<^verbatim>\<open>raw.isPlaying && startServerTs\<close> tests the
  timestamp for truthiness, so a timestamp of 0 counts as none.
\<close>

definition subscribe ::
  "RoomPlaybackService \<Rightarrow> nat \<Rightarrow> PlaybackState option \<Rightarrow> PlaybackState option \<times> real option \<times> bool" where
  "subscribe svc now raw =
     (case raw of
        None \<Rightarrow> (None, None, False)
      | Some state \<Rightarrow>
          (let isLocal = (case opId state of None \<Rightarrow> False | Some i \<Rightarrow> Some i = lastUserOpId svc);
               pos = (case position state of Some p \<Rightarrow> p | None \<Rightarrow> 0);
               syncedPos =
                 (case startServerTs state of
                    None \<Rightarrow> pos
                  | Some s \<Rightarrow>
                      if isPlaying state \<and> s \<noteq> 0 then pos + (nowServerMs svc now - s) / 1000
                      else pos)
           in (Some state, Some syncedPos, isLocal)))"

text \<open>
  One run of the interval callback of \<open>startHeartbeat\<close>: the player state it reads, the record
  its \<^verbatim>\<open>get\<close> returned, and the write it issues.
\<close>

definition heartbeatTick ::
  "string \<Rightarrow> real \<times> bool \<Rightarrow> PlaybackState option \<Rightarrow> env \<Rightarrow> dbWrite option" where
  "heartbeatTick userId playerState current e =
     (case current of
        None \<Rightarrow> None
      | Some c \<Rightarrow>
          if initiator c \<noteq> userId then None
          else Some (DbUpdate \<lparr> u_isPlaying = None,
                                 u_position = Some (fst playerState),
                                 u_initiator = None,
                                 u_opId = None,
                                 u_version = None,
                                 u_updatedAt = Some (serverTs e),
                                 u_startServerTs =
                                   Some (if snd playerState then Some (serverTs e) else None) \<rparr>))"

section \<open>RoomQueueService\<close>

record Song =
  song_id :: string
  song_title :: string
  song_artist :: string
  song_thumbnail :: string
  song_duration :: "real option"

text \<open>The value stored under \<^verbatim>\<open>rooms/<roomId>/queue/<itemId>\<close>.\<close>

record QueueEntry =
  v_song :: Song
  v_addedBy :: string
  v_addedAt :: "real option"

record RoomQueueItem =
  itemId :: string
  song :: Song
  addedBy :: string
  addedAt :: "real option"

definition toItem :: "string \<times> QueueEntry \<Rightarrow> RoomQueueItem" where
  "toItem kv = \<lparr> itemId = fst kv, song = v_song (snd kv), addedBy = v_addedBy (snd kv),
                 addedAt = v_addedAt (snd kv) \<rparr>"

text \<open>
  The comparator both sorts pass to \<^verbatim>\<open>Array.prototype.sort\<close>. \<^verbatim>\<open>String.prototype.localeCompare\<close>
  belongs to the platform, not to the repository: it is the parameter \<open>localeCompare\<close>.
\<close>

definition compareItems :: "(string \<Rightarrow> string \<Rightarrow> real) \<Rightarrow> RoomQueueItem \<Rightarrow> RoomQueueItem \<Rightarrow> real" where
  "compareItems localeCompare a b =
     (let ta = (case addedAt a of Some t \<Rightarrow> t | None \<Rightarrow> 0);
          tb = (case addedAt b of Some t \<Rightarrow> t | None \<Rightarrow> 0)
      in if ta \<noteq> tb then ta - tb else localeCompare (itemId a) (itemId b))"

text \<open>
  \<^verbatim>\<open>Array.prototype.sort\<close> with a comparator, as a stable insertion sort: an element goes
  before the first element it does not compare greater than.
\<close>

fun insertBy :: "('a \<Rightarrow> 'a \<Rightarrow> real) \<Rightarrow> 'a \<Rightarrow> 'a list \<Rightarrow> 'a list" where
  "insertBy cmp x [] = [x]"
| "insertBy cmp x (y # ys) = (if cmp x y \<le> 0 then x # y # ys else y # insertBy cmp x ys)"

definition arraySort :: "('a \<Rightarrow> 'a \<Rightarrow> real) \<Rightarrow> 'a list \<Rightarrow> 'a list" where
  "arraySort cmp xs = foldr (insertBy cmp) xs []"

text \<open>
  The snapshot of the queue is \<open>None\<close> (no data) or the entries of the stored object, in the
  order \<^verbatim>\<open>Object.entries\<close> lists them. \<open>queueSubscribe\<close> is the list the \<^verbatim>\<open>onValue\<close>
  callback of \<^verbatim>\<open>subscribe\<close> passes on.
\<close>

definition queueSubscribe ::
  "(string \<Rightarrow> string \<Rightarrow> real) \<Rightarrow> (string \<times> QueueEntry) list option \<Rightarrow> RoomQueueItem list" where
  "queueSubscribe localeCompare val =
     (case val of
        None \<Rightarrow> []
      | Some entries \<Rightarrow> arraySort (compareItems localeCompare) (map toItem entries))"

definition getFirstItem ::
  "(string \<Rightarrow> string \<Rightarrow> real) \<Rightarrow> (string \<times> QueueEntry) list option \<Rightarrow> RoomQueueItem option" where
  "getFirstItem localeCompare val =
     (case val of
        None \<Rightarrow> None
      | Some entries \<Rightarrow>
          (case arraySort (compareItems localeCompare) (map toItem entries) of
             [] \<Rightarrow> None
           | x # _ \<Rightarrow> Some x))"

text \<open>
  The order of the specification: \<open>addedAt\<close> first (0 for an item without one, as the
  comparator reads it), then the item id under the collation.
\<close>

definition queueKey :: "RoomQueueItem \<Rightarrow> real" where
  "queueKey a = (case addedAt a of Some t \<Rightarrow> t | None \<Rightarrow> 0)"

definition queueLe :: "(string \<Rightarrow> string \<Rightarrow> real) \<Rightarrow> RoomQueueItem \<Rightarrow> RoomQueueItem \<Rightarrow> bool" where
  "queueLe localeCompare a b \<longleftrightarrow>
     queueKey a < queueKey b \<or> (queueKey a = queueKey b \<and> localeCompare (itemId a) (itemId b) \<le> 0)"

text \<open>
  What the proofs need of the collation: it compares any two strings, transitively, and
  puts no two different strings at the same place.
\<close>

definition collation :: "(string \<Rightarrow> string \<Rightarrow> real) \<Rightarrow> bool" where
  "collation lc \<longleftrightarrow>
     (\<forall>a b. lc a b \<le> 0 \<or> lc b a \<le> 0) \<and>
     (\<forall>a b c. lc a b \<le> 0 \<longrightarrow> lc b c \<le> 0 \<longrightarrow> lc a c \<le> 0) \<and>
     (\<forall>a b. lc a b \<le> 0 \<longrightarrow> lc b a \<le> 0 \<longrightarrow> a = b)"

text \<open>
  \<^verbatim>\<open>localeCompare\<close> as the platform's root collation orders strings of the characters item
  ids are made of (the letters and digits of ASCII, \<^verbatim>\<open>-\<close> and \<^verbatim>\<open>_\<close>). Two strings are
  compared first by their characters without regard to case: \<^verbatim>\<open>_\<close> before \<^verbatim>\<open>-\<close> before the
  digits before the letters in alphabetical order. Strings that are equal in that are
  compared by case, a lowercase letter before the same letter in uppercase. Every other
  character is left at the place of its code unit, which the platform need not do.
\<close>

definition isUpper :: "char \<Rightarrow> bool" where
  "isUpper c \<longleftrightarrow> 65 \<le> (of_char c :: nat) \<and> (of_char c :: nat) \<le> 90"

definition primaryWeight :: "char \<Rightarrow> nat" where
  "primaryWeight c =
     (if c = CHR ''_'' then 89 else if isUpper c then 2 * (of_char c + 32) else 2 * of_char c)"

definition caseWeight :: "char \<Rightarrow> nat" where
  "caseWeight c = (if isUpper c then 1 else 0)"

definition rootCollation :: "string \<Rightarrow> string \<Rightarrow> real" where
  "rootCollation a b =
     (if map primaryWeight a < map primaryWeight b then - 1
      else if map primaryWeight b < map primaryWeight a then 1
      else if map caseWeight a < map caseWeight b then - 1
      else if map caseWeight b < map caseWeight a then 1
      else 0)"

text \<open>Comparison by code units, the lexical order of strings.\<close>

definition codeUnitCompare :: "string \<Rightarrow> string \<Rightarrow> real" where
  "codeUnitCompare a b = (if a < b then - 1 else if a = b then 0 else 1)"

section \<open>The music player provider: room synchronisation\<close>

text \<open>
  The React state and the refs of the provider that the room effects read or assign.
  \<open>ctxIsPlaying\<close>, \<open>ctxDuration\<close> and \<open>ctxVolume\<close> are the states \<^verbatim>\<open>isPlaying\<close>,
  \<^verbatim>\<open>duration\<close> and \<^verbatim>\<open>volume\<close>. A ref is assigned at the place of the assignment. A state
  setter called with a value queues that value, and an updater passed to a setter is run by
  React at the next render, so what the updater assigns and queues comes after everything
  the handler has assigned and queued: a handler is modelled together with the render it
  causes, the updater's own assignments coming last.
\<close>

record MusicPlayer =
  currentSong :: "Song option"
  ctxIsPlaying :: bool
  currentTime :: real
  ctxDuration :: real
  ctxVolume :: real
  playerKey :: nat
  playerReady :: bool
  roomQueue :: "RoomQueueItem list"
  activeRoomId :: "string option"
  activeUserId :: "string option"
  lastAppliedVersionRef :: real
  isSyncingRef :: bool
  hasInitialSyncedRef :: bool
  pendingSyncPositionRef :: "real option"

text \<open>
  \<^verbatim>\<open>playerRef.current\<close>: no player, or a player with what \<^verbatim>\<open>getCurrentTime?.()\<close> returns when
  that is a number. What a handler does outside the provider's own state is returned as a
  list: a \<^verbatim>\<open>seekTo\<close> on the player, a toast shown to the user.
\<close>

datatype playerRef = NoPlayer | Player "real option"

datatype effect = SeekTo real | Toast string

definition truthy :: "string option \<Rightarrow> bool" where
  "truthy s = (case s of None \<Rightarrow> False | Some x \<Rightarrow> x \<noteq> [])"

definition inRoom :: "MusicPlayer \<Rightarrow> bool" where
  "inRoom c = (truthy (activeRoomId c) \<and> truthy (activeUserId c))"

definition forcePlayerReload :: "MusicPlayer \<Rightarrow> MusicPlayer" where
  "forcePlayerReload c = c\<lparr>playerKey := playerKey c + 1, ctxDuration := 0, currentTime := 0\<rparr>"

definition setActiveRoom :: "string option \<Rightarrow> string option \<Rightarrow> MusicPlayer \<Rightarrow> MusicPlayer" where
  "setActiveRoom roomId userId c =
     (let c1 = c\<lparr>activeRoomId := roomId, activeUserId := userId, lastAppliedVersionRef := 0\<rparr>
      in if truthy roomId then c1 else c1\<lparr>roomQueue := []\<rparr>)"

text \<open>The room sync effect, up to its call of \<^verbatim>\<open>roomPlaybackService.subscribe\<close>.\<close>

definition roomSyncEffect :: "MusicPlayer \<Rightarrow> MusicPlayer" where
  "roomSyncEffect c =
     (if \<not> inRoom c \<or> \<not> truthy (activeRoomId c) then c
      else c\<lparr>hasInitialSyncedRef := False, pendingSyncPositionRef := None\<rparr>)"

text \<open>The cleanup of the room sync effect, run before the effect is set up again.\<close>

definition roomSyncCleanup :: "MusicPlayer \<Rightarrow> MusicPlayer" where
  "roomSyncCleanup c = c\<lparr>hasInitialSyncedRef := False, pendingSyncPositionRef := None\<rparr>"

text \<open>
  The updater the callback passes to \<^verbatim>\<open>setCurrentSong\<close>: when the song differs from the
  current one it resets the duration, reloads the player (which sets the time to 0), stores
  the position as pending and replaces the song. React runs it at the render after the
  callback.
\<close>

definition isSameSong :: "MusicPlayer \<Rightarrow> PlaybackState \<Rightarrow> bool" where
  "isSameSong c state =
     (case currentSong c of None \<Rightarrow> False | Some prev \<Rightarrow> song_id prev = songId state)"

definition loadSong :: "MusicPlayer \<Rightarrow> PlaybackState \<Rightarrow> real \<Rightarrow> MusicPlayer" where
  "loadSong c state nextTime =
     (let meta = (case songMeta state of
                    Some m \<Rightarrow> m
                  | None \<Rightarrow> \<lparr>title = ''Unknown'', artist = [], thumbnail = []\<rparr>)
      in if isSameSong c state then c
         else (forcePlayerReload (c\<lparr>ctxDuration := 0\<rparr>))
                \<lparr>pendingSyncPositionRef := Some nextTime,
                 currentSong :=
                   Some \<lparr> song_id = songId state, song_title = title meta,
                          song_artist = artist meta, song_thumbnail = thumbnail meta,
                          song_duration = None \<rparr>\<rparr>)"

text \<open>
  The block of the callback that seeks at once when there is a player: on the first sync of
  the subscription, or when the player is more than 2 seconds from the target. The player
  it finds is the one mounted when the callback runs.
\<close>

definition seekIfReady :: "MusicPlayer \<Rightarrow> playerRef \<Rightarrow> real \<Rightarrow> MusicPlayer \<times> effect list" where
  "seekIfReady c player nextTime =
     (case player of
        NoPlayer \<Rightarrow> (c\<lparr>pendingSyncPositionRef := Some nextTime\<rparr>, [])
      | Player local \<Rightarrow>
          (let shouldForceSeek =
                 (\<not> hasInitialSyncedRef c \<or>
                  (case local of None \<Rightarrow> False | Some l \<Rightarrow> \<bar>l - nextTime\<bar> > 2))
           in if shouldForceSeek
              then (c\<lparr>hasInitialSyncedRef := True, pendingSyncPositionRef := None\<rparr>,
                    [SeekTo nextTime])
              else (c, [])))"

definition syncVolume :: "MusicPlayer \<Rightarrow> PlaybackState \<Rightarrow> MusicPlayer" where
  "syncVolume c state = (if volume state \<noteq> ctxVolume c then c\<lparr>ctxVolume := volume state\<rparr> else c)"

text \<open>
  The render that follows a remote apply. The updater of \<^verbatim>\<open>setCurrentSong\<close> runs on the
  state the callback has left. \<^verbatim>\<open>volume\<close> is a dependency of the room sync effect: when the
  callback has changed it, the effect is cleaned up and set up again, which resets
  \<open>hasInitialSyncedRef\<close> and \<open>pendingSyncPositionRef\<close> and subscribes anew (the record the new
  subscription delivers is a delivery of its own).
\<close>

definition renderAfterSync :: "real \<Rightarrow> PlaybackState \<Rightarrow> real \<Rightarrow> MusicPlayer \<Rightarrow> MusicPlayer" where
  "renderAfterSync volumeBefore state nextTime c =
     (let c1 = loadSong c state nextTime
      in if ctxVolume c1 \<noteq> volumeBefore then roomSyncEffect (roomSyncCleanup c1) else c1)"

text \<open>
  The callback the effect subscribes, with the render it causes. A null state, a stale
  version and a local update return before any state is set, so no render follows them.
  \<^verbatim>\<open>syncedPos ?? state.position\<close> takes the stored position only when \<open>syncedPos\<close> is null,
  which \<open>subscribe\<close> never passes together with a state.
\<close>

definition onPlaybackState ::
  "MusicPlayer \<Rightarrow> playerRef \<Rightarrow> PlaybackState option \<times> real option \<times> bool \<Rightarrow> MusicPlayer \<times> effect list" where
  "onPlaybackState c player args =
     (case args of (st, syncedPos, isLocal) \<Rightarrow>
      (case st of
         None \<Rightarrow> (c, [])
       | Some state \<Rightarrow>
           (let ver = (case version state of Some v \<Rightarrow> v | None \<Rightarrow> 0)
            in if ver < lastAppliedVersionRef c then (c, [])
               else
                 (let c1 = c\<lparr>lastAppliedVersionRef := ver\<rparr>
                  in if isLocal then (c1, [])
                     else
                       (let c2 = c1\<lparr>isSyncingRef := True\<rparr>;
                            nextTime = (case syncedPos of
                                          Some p \<Rightarrow> p
                                        | None \<Rightarrow> (case position state of Some p \<Rightarrow> p | None \<Rightarrow> 0));
                            c3 = c2\<lparr>ctxIsPlaying := isPlaying state, currentTime := nextTime\<rparr>;
                            r = seekIfReady c3 player nextTime;
                            c4 = syncVolume (fst r) state
                        in (renderAfterSync (ctxVolume c) state nextTime c4, snd r))))))"

text \<open>The callback of the 400 ms timer set at the end of a remote apply.\<close>

definition syncTimeout :: "MusicPlayer \<Rightarrow> MusicPlayer" where
  "syncTimeout c = c\<lparr>isSyncingRef := False\<rparr>"

text \<open>
  The effect that applies a pending sync position. Its dependencies are \<^verbatim>\<open>playerReady\<close> and
  \<^verbatim>\<open>inRoom\<close>: it runs at a render where one of them has changed.
\<close>

definition pendingSyncEffect :: "MusicPlayer \<Rightarrow> playerRef \<Rightarrow> MusicPlayer \<times> effect list" where
  "pendingSyncEffect c player =
     (case pendingSyncPositionRef c of
        None \<Rightarrow> (c, [])
      | Some pos \<Rightarrow>
          if playerReady c \<and> inRoom c
          then (c\<lparr>hasInitialSyncedRef := True, pendingSyncPositionRef := None\<rparr>,
                case player of NoPlayer \<Rightarrow> [] | Player local \<Rightarrow> [SeekTo pos])
          else (c, []))"

text \<open>
  The \<^verbatim>\<open>onReady\<close> handler of the player component stores the new player in \<^verbatim>\<open>playerRef\<close>
  and sets \<^verbatim>\<open>playerReady\<close>, which nothing sets back to false. The pending sync effect runs
  at the render that follows only when \<^verbatim>\<open>playerReady\<close> was false before; \<open>local\<close> is what
  the new player returns as its time.
\<close>

definition onPlayerReady :: "MusicPlayer \<Rightarrow> real option \<Rightarrow> MusicPlayer \<times> effect list" where
  "onPlayerReady c local =
     (let c1 = c\<lparr>playerReady := True\<rparr>
      in if playerReady c then (c1, []) else pendingSyncEffect c1 (Player local))"

text \<open>
  A snapshot as it reaches a client: the record (or none), and what the handlers find at
  that moment: the fields of the service, \<^verbatim>\<open>Date.now()\<close> and the player. \<open>deliver\<close> is
  \<open>subscribe\<close> followed by the callback and its render; \<open>deliverAll\<close> runs a sequence of
  deliveries, each rendered before the next arrives, and collects the effects.
\<close>

record delivery =
  snapshot :: "PlaybackState option"
  svcAt :: RoomPlaybackService
  arrival :: nat
  playerAt :: playerRef

definition deliver :: "MusicPlayer \<Rightarrow> delivery \<Rightarrow> MusicPlayer \<times> effect list" where
  "deliver c d = onPlaybackState c (playerAt d) (subscribe (svcAt d) (arrival d) (snapshot d))"


text \<open>The version the callback reads from a state, and whether the service calls it local.\<close>

definition stateVersion :: "PlaybackState \<Rightarrow> real" where
  "stateVersion s = (case version s of Some v \<Rightarrow> v | None \<Rightarrow> 0)"

definition isEcho :: "RoomPlaybackService \<Rightarrow> PlaybackState \<Rightarrow> bool" where
  "isEcho svc s = (case opId s of None \<Rightarrow> False | Some i \<Rightarrow> lastUserOpId svc = Some i)"

text \<open>
  The live position as the specification words it: the stored position, advanced by the
  time since \<open>startServerTs\<close> (milliseconds, turned into seconds) while playing with a
  numeric \<open>startServerTs\<close>.
\<close>

definition specLivePosition :: "PlaybackState \<Rightarrow> real \<Rightarrow> real" where
  "specLivePosition s T =
     (let p = (case position s of Some p \<Rightarrow> p | None \<Rightarrow> 0)
      in case startServerTs s of
           Some t \<Rightarrow> if isPlaying s then p + (T - t) / 1000 else p
         | None \<Rightarrow> p)"

fun writePosition :: "dbWrite \<Rightarrow> real option" where
  "writePosition (DbSet r) = position r"
| "writePosition (DbUpdate u) = u_position u"

text \<open>A burst of seek intents with no timer callback between them.\<close>

record seekIntent =
  seekUser :: string
  seekPos :: real
  seekPlaying :: bool
  seekEnv :: env

fun seekBurst ::
  "RoomPlaybackService \<Rightarrow> PlaybackState option \<Rightarrow> seekIntent list
     \<Rightarrow> RoomPlaybackService \<times> PlaybackState option \<times> dbWrite list" where
  "seekBurst svc cur [] = (svc, cur, [])"
| "seekBurst svc cur (i # is) =
     (let r = seek svc cur (seekUser i) (seekPos i) (seekPlaying i) (seekEnv i);
          r' = seekBurst (fst r) (apply_write (snd r) cur) is
      in (fst r', fst (snd r'),
          (case snd r of None \<Rightarrow> [] | Some w \<Rightarrow> [w]) @ snd (snd r')))"

section \<open>Concrete inputs\<close>

definition exService :: RoomPlaybackService where
  "exService = \<lparr> lastUserOpId = Some ''1700-abc123'', seekThrottle = False, serverTimeOffsetMs = 0 \<rparr>"

definition exState :: PlaybackState where
  "exState = \<lparr> songId = ''song1'',
               songMeta = Some \<lparr>title = ''Title'', artist = ''Artist'', thumbnail = ''thumb.png''\<rparr>,
               isPlaying = True, position = Some 30, volume = 80, initiator = ''alice'',
               opId = Some ''1699-zzz999'', version = Some 5, updatedAt = 1000000,
               startServerTs = Some 1000000 \<rparr>"

definition exEnv :: env where
  "exEnv = \<lparr> dateNow = 1723, randomSuffix = ''k3x9qa'', serverTs = 2000000 \<rparr>"

definition exIntent :: "real \<Rightarrow> seekIntent" where
  "exIntent t = \<lparr> seekUser = ''alice'', seekPos = t, seekPlaying = True, seekEnv = exEnv \<rparr>"

definition exPlayer :: MusicPlayer where
  "exPlayer = \<lparr> currentSong = None, ctxIsPlaying = True, currentTime = 12, ctxDuration = 200,
                ctxVolume = 80, playerKey = 0, playerReady = True, roomQueue = [], activeRoomId = Some ''room1'',
                activeUserId = Some ''alice'', lastAppliedVersionRef = 5, isSyncingRef = False,
                hasInitialSyncedRef = True, pendingSyncPositionRef = None \<rparr>"

definition exDelivery :: "real \<Rightarrow> delivery" where
  "exDelivery v = \<lparr> snapshot = Some (exState\<lparr>version := Some v\<rparr>), svcAt = exService,
                    arrival = 1010000, playerAt = Player (Some 12) \<rparr>"


definition exFresh :: MusicPlayer where
  "exFresh = \<lparr> currentSong = None, ctxIsPlaying = False, currentTime = 0, ctxDuration = 0,
               ctxVolume = 80, playerKey = 0, playerReady = False, roomQueue = [],
               activeRoomId = None, activeUserId = None, lastAppliedVersionRef = 9,
               isSyncingRef = False, hasInitialSyncedRef = True, pendingSyncPositionRef = Some 3 \<rparr>"

definition exJoin :: "playerRef \<Rightarrow> delivery" where
  "exJoin p = \<lparr> snapshot = Some exState, svcAt = exService\<lparr>lastUserOpId := None\<rparr>,
                arrival = 1010000, playerAt = p \<rparr>"

definition exEntry :: "real option \<Rightarrow> QueueEntry" where
  "exEntry t = \<lparr> v_song = \<lparr> song_id = ''song1'', song_title = ''Title'', song_artist = ''Artist'',
                           song_thumbnail = ''thumb.png'', song_duration = None \<rparr>,
                 v_addedBy = ''alice'', v_addedAt = t \<rparr>"

definition exQueue :: "(string \<times> QueueEntry) list" where
  "exQueue = [(''-NB'', exEntry (Some 200)), (''-Na'', exEntry (Some 200)), (''-Nc'', exEntry (Some 100))]"


section \<open>Properties\<close>

subsection \<open>Operation ids\<close>

lemma digit_mem: "n < 10 \<Longrightarrow> ''0123456789'' ! n \<in> set ''0123456789''"
  by (rule nth_mem) simp

lemma digit_inj:
  assumes "a < 10" "b < 10" "''0123456789'' ! a = ''0123456789'' ! b"
  shows "a = b"
proof -
  have "distinct ''0123456789''" by simp
  then show ?thesis using assms by (simp add: nth_eq_iff_index_eq)
qed

lemma decimal_digits: "set (decimal n) \<subseteq> set ''0123456789''"
proof (induction n rule: decimal.induct)
  case (1 n)
  show ?case
  proof (cases "n < 10")
    case True
    then show ?thesis using digit_mem [of n] by (subst decimal.simps) simp
  next
    case False
    have "n mod 10 < 10" by simp
    then show ?thesis using False 1 digit_mem [of "n mod 10"] by (subst decimal.simps) simp
  qed
qed

lemma decimal_nonempty: "decimal n \<noteq> []"
  by (subst decimal.simps) simp

lemma decimal_inj: "decimal n = decimal m \<Longrightarrow> n = m"
proof (induction n arbitrary: m rule: decimal.induct)
  case (1 n)
  show ?case
  proof (cases "n < 10")
    case n: True
    show ?thesis
    proof (cases "m < 10")
      case True
      then show ?thesis using n 1(2) digit_inj [of n m]
        by (simp add: decimal.simps [of n] decimal.simps [of m])
    next
      case False
      then show ?thesis using n 1(2) decimal_nonempty [of "m div 10"]
        by (simp add: decimal.simps [of n] decimal.simps [of m])
    qed
  next
    case n: False
    show ?thesis
    proof (cases "m < 10")
      case True
      then show ?thesis using n 1(2) decimal_nonempty [of "n div 10"]
        by (simp add: decimal.simps [of n] decimal.simps [of m])
    next
      case False
      have eq: "decimal (n div 10) = decimal (m div 10)"
          "''0123456789'' ! (n mod 10) = ''0123456789'' ! (m mod 10)"
        using n False 1(2) by (simp_all add: decimal.simps [of n] decimal.simps [of m])
      have "n div 10 = m div 10" using 1(1) [OF n eq(1)] .
      moreover have "n mod 10 = m mod 10" using digit_inj [OF _ _ eq(2)] by simp
      ultimately show ?thesis by (metis div_mult_mod_eq)
    qed
  qed
qed

lemma split_at_first:
  "x \<notin> set xs \<Longrightarrow> x \<notin> set xs' \<Longrightarrow> xs @ x # ys = xs' @ x # ys' \<Longrightarrow> xs = xs' \<and> ys = ys'"
proof (induction xs arbitrary: xs')
  case Nil
  then show ?case by (cases xs') auto
next
  case (Cons a xs)
  then show ?case by (cases xs') auto
qed

text \<open>Two operation ids are the same only when the clock and the random suffix are.\<close>

lemma generateOpId_inj:
  "generateOpId e = generateOpId e' \<longleftrightarrow> dateNow e = dateNow e' \<and> randomSuffix e = randomSuffix e'"
proof
  assume eq: "generateOpId e = generateOpId e'"
  have no_dash: "CHR ''-'' \<notin> set (decimal k)" for k
    using decimal_digits [of k] by auto
  have "decimal (dateNow e) @ CHR ''-'' # randomSuffix e
      = decimal (dateNow e') @ CHR ''-'' # randomSuffix e'"
    using eq by (simp add: generateOpId_def)
  then have "decimal (dateNow e) = decimal (dateNow e') \<and> randomSuffix e = randomSuffix e'"
    by (rule split_at_first [OF no_dash no_dash])
  then show "dateNow e = dateNow e' \<and> randomSuffix e = randomSuffix e'"
    using decimal_inj by blast
next
  assume "dateNow e = dateNow e' \<and> randomSuffix e = randomSuffix e'"
  then show "generateOpId e = generateOpId e'" by (simp add: generateOpId_def)
qed

subsection \<open>Write operations\<close>

text \<open>
  C8. \<open>playSong\<close>, for every service state, stored record, issuer, song and volume, issues one
  \<^verbatim>\<open>set\<close> of a full record with \<open>isPlaying\<close> true, \<open>position\<close> 0, the operation id it has just
  generated, \<open>version\<close> one more than the stored version (1 when there is no record or no
  numeric version), \<open>startServerTs\<close> and \<open>updatedAt\<close> the server timestamp; it stores that id
  as \<open>lastUserOpId\<close> and returns it. The id is new in that it is generated in this call from
  the clock and the random suffix, and equals only ids generated from the same two.
\<close>

theorem playSong_writes_next_version:
  "\<exists>rec. playSong svc current userId sid meta vol e =
           (svc\<lparr>lastUserOpId := Some (generateOpId e)\<rparr>, Some (DbSet rec), generateOpId e)
     \<and> apply_write (Some (DbSet rec)) current = Some rec
     \<and> isPlaying rec \<and> position rec = Some 0 \<and> opId rec = Some (generateOpId e)
     \<and> songId rec = sid \<and> songMeta rec = Some meta \<and> initiator rec = userId
     \<and> volume rec = (case vol of None \<Rightarrow> 80 | Some v \<Rightarrow> v)
     \<and> version rec = Some (case current of
                             None \<Rightarrow> 1
                           | Some c \<Rightarrow> (case version c of None \<Rightarrow> 1 | Some v \<Rightarrow> v + 1))
     \<and> startServerTs rec = Some (serverTs e) \<and> updatedAt rec = serverTs e
     \<and> (\<forall>e'. generateOpId e' = generateOpId e \<longrightarrow>
            dateNow e' = dateNow e \<and> randomSuffix e' = randomSuffix e)"
  by (simp add: playSong_def getNextVersion_def Let_def generateOpId_inj split: option.splits)

theorem playSong_writes_next_version_witness:
  "\<exists>rec. playSong exService (Some exState) ''bob'' ''song2''
            \<lparr>title = ''T2'', artist = ''A2'', thumbnail = ''P2''\<rparr> None exEnv =
           (exService\<lparr>lastUserOpId := Some ''1723-k3x9qa''\<rparr>, Some (DbSet rec), ''1723-k3x9qa'')
     \<and> isPlaying rec \<and> position rec = Some 0 \<and> opId rec = Some ''1723-k3x9qa''
     \<and> version rec = Some 6 \<and> volume rec = 80 \<and> startServerTs rec = Some 2000000"
  using playSong_writes_next_version [of exService "Some exState" "''bob''" "''song2''"
      "\<lparr>title = ''T2'', artist = ''A2'', thumbnail = ''P2''\<rparr>" None exEnv]
  by (auto simp add: exState_def exEnv_def generateOpId_def decimal.simps)

text \<open>
  C10. For a room whose playback record does not exist, \<open>pause\<close> and \<open>resume\<close> return with
  the service unchanged and no write, \<open>seek\<close> returns with no write (it has set its throttle
  timer unless that was set already), and the store is as before; \<open>playSong\<close> creates the
  record, with version 1. The operations return values: none of them has a failing branch.
\<close>

theorem missing_record_no_write:
  assumes "db roomId = None"
  shows "pause svc (db roomId) userId pos e = (svc, None)
       \<and> resume svc (db roomId) userId pos e = (svc, None)
       \<and> seek svc (db roomId) userId pos playing e =
           (if seekThrottle svc then svc else svc\<lparr>seekThrottle := True\<rparr>, None)
       \<and> commit roomId (snd (pause svc (db roomId) userId pos e)) db = db
       \<and> commit roomId (snd (resume svc (db roomId) userId pos e)) db = db
       \<and> commit roomId (snd (seek svc (db roomId) userId pos playing e)) db = db
       \<and> (\<exists>rec. commit roomId (fst (snd (playSong svc (db roomId) userId sid meta vol e))) db roomId
                  = Some rec
               \<and> version rec = Some 1 \<and> songId rec = sid)"
  using assms
  by (simp add: pause_def resume_def seek_def commit_def playSong_def getNextVersion_def Let_def
      fun_upd_idem)

theorem missing_record_no_write_witness:
  "(Map.empty :: string \<rightharpoonup> PlaybackState) ''room1'' = None
   \<and> pause exService (Map.empty ''room1'') ''alice'' 12 exEnv = (exService, None)
   \<and> resume exService (Map.empty ''room1'') ''alice'' 12 exEnv = (exService, None)
   \<and> snd (seek exService (Map.empty ''room1'') ''alice'' 12 True exEnv) = None
   \<and> commit ''room1'' (snd (seek exService (Map.empty ''room1'') ''alice'' 12 True exEnv)) Map.empty
       = Map.empty
   \<and> (\<exists>rec. commit ''room1'' (fst (snd (playSong exService (Map.empty ''room1'') ''alice'' ''song1''
               \<lparr>title = ''T'', artist = ''A'', thumbnail = ''P''\<rparr> None exEnv))) Map.empty ''room1''
              = Some rec
            \<and> version rec = Some 1 \<and> songId rec = ''song1'')"
  using missing_record_no_write [of Map.empty "''room1''" exService "''alice''" 12 exEnv True
      "''song1''" "\<lparr>title = ''T'', artist = ''A'', thumbnail = ''P''\<rparr>" None]
  by (simp add: commit_def)

text \<open>
  C5. A heartbeat tick writes nothing when there is no record or when the record's initiator
  is not the user running the heartbeat. Otherwise it issues one \<^verbatim>\<open>update\<close>, after which the
  record has the player's position, \<open>updatedAt\<close> the server timestamp and \<open>startServerTs\<close> the
  server timestamp when the player is playing, none when it is paused; \<open>version\<close>, \<open>opId\<close>,
  \<open>songId\<close>, \<open>songMeta\<close>, \<open>isPlaying\<close>, \<open>volume\<close> and \<open>initiator\<close> are as they were.
\<close>

theorem heartbeat_writes_position_only:
  "heartbeatTick userId ps None e = None
   \<and> (initiator c \<noteq> userId \<longrightarrow> heartbeatTick userId ps (Some c) e = None)
   \<and> (initiator c = userId \<longrightarrow>
        (\<exists>u r. heartbeatTick userId ps (Some c) e = Some (DbUpdate u)
             \<and> apply_write (Some (DbUpdate u)) (Some c) = Some r
             \<and> version r = version c \<and> opId r = opId c \<and> songId r = songId c
             \<and> songMeta r = songMeta c \<and> isPlaying r = isPlaying c \<and> volume r = volume c
             \<and> initiator r = initiator c
             \<and> position r = Some (fst ps) \<and> updatedAt r = serverTs e
             \<and> startServerTs r = (if snd ps then Some (serverTs e) else None)
             \<and> r = c\<lparr>position := Some (fst ps), updatedAt := serverTs e,
                      startServerTs := (if snd ps then Some (serverTs e) else None)\<rparr>))"
  by (simp add: heartbeatTick_def merge_update_def)

theorem heartbeat_writes_position_only_witness:
  "initiator exState = ''alice''
   \<and> apply_write (heartbeatTick ''alice'' (42, False) (Some exState) exEnv) (Some exState)
       = Some (exState\<lparr>position := Some 42, updatedAt := 2000000, startServerTs := None\<rparr>)
   \<and> initiator exState \<noteq> ''bob''
   \<and> heartbeatTick ''bob'' (42, True) (Some exState) exEnv = None"
  using heartbeat_writes_position_only [of "''alice''" "(42, False)" exEnv exState]
        heartbeat_writes_position_only [of "''bob''" "(42, True)" exEnv exState]
  by (auto simp add: exState_def exEnv_def)

text \<open>
  Every operation writes its issuer as initiator, so the heartbeat of a user is silent on
  the record another user's operation has left.
\<close>

lemma heartbeat_silent_after_foreign_operation:
  assumes "other \<noteq> userId"
  shows "heartbeatTick userId ps (apply_write (snd (pause svc (Some c) other pos e)) (Some c)) e' = None"
    and "heartbeatTick userId ps (apply_write (snd (resume svc (Some c) other pos e)) (Some c)) e' = None"
    and "\<not> seekThrottle svc \<Longrightarrow>
         heartbeatTick userId ps (apply_write (snd (seek svc (Some c) other pos playing e)) (Some c)) e'
           = None"
    and "heartbeatTick userId ps
           (apply_write (fst (snd (playSong svc cur other sid meta vol e))) cur) e' = None"
  using assms
  by (simp_all add: heartbeatTick_def pause_def resume_def seek_def playSong_def merge_update_def
      Let_def)

text \<open>
  The service writes \<open>startServerTs\<close> as the server's timestamp or as null: when the server's
  clock is not at 0, no record it writes or updates has a \<open>startServerTs\<close> of 0.
\<close>

lemma written_startServerTs:
  assumes "serverTs e \<noteq> 0"
    and "case cur of None \<Rightarrow> True | Some c \<Rightarrow> startServerTs c \<noteq> Some 0"
  shows "case apply_write (fst (snd (playSong svc cur userId sid meta vol e))) cur of
           None \<Rightarrow> True | Some r \<Rightarrow> startServerTs r \<noteq> Some 0"
    and "case apply_write (snd (pause svc cur userId pos e)) cur of
           None \<Rightarrow> True | Some r \<Rightarrow> startServerTs r \<noteq> Some 0"
    and "case apply_write (snd (resume svc cur userId pos e)) cur of
           None \<Rightarrow> True | Some r \<Rightarrow> startServerTs r \<noteq> Some 0"
    and "case apply_write (snd (seek svc cur userId pos playing e)) cur of
           None \<Rightarrow> True | Some r \<Rightarrow> startServerTs r \<noteq> Some 0"
    and "case apply_write (heartbeatTick userId ps cur e) cur of
           None \<Rightarrow> True | Some r \<Rightarrow> startServerTs r \<noteq> Some 0"
  using assms
  by (cases cur; simp add: playSong_def pause_def resume_def seek_def heartbeatTick_def
        merge_update_def Let_def)+

text \<open>
  C3. For a record with a numeric position \<open>p\<close> and a \<open>startServerTs\<close> as the service writes
  it (the server's timestamp or none, never 0), the synced position the subscriber computes
  at server time \<open>T = nowServerMs\<close> is \<open>p + (T - startServerTs) / 1000\<close> when the record is
  playing and \<open>startServerTs\<close> is a number, and \<open>p\<close> otherwise; it is the live position of the
  specification. This holds at every \<open>T\<close>, so at every \<open>T\<close> from \<open>updatedAt\<close> on.
\<close>

theorem synced_position_formula:
  assumes "position s = Some p" and "startServerTs s \<noteq> Some 0"
  shows "(isPlaying s \<and> startServerTs s = Some t \<longrightarrow>
            fst (snd (subscribe svc now (Some s))) = Some (p + (nowServerMs svc now - t) / 1000))
       \<and> (\<not> isPlaying s \<or> startServerTs s = None \<longrightarrow>
            fst (snd (subscribe svc now (Some s))) = Some p)
       \<and> fst (snd (subscribe svc now (Some s))) = Some (specLivePosition s (nowServerMs svc now))"
  using assms
  by (auto simp add: subscribe_def specLivePosition_def Let_def split: option.splits)

theorem synced_position_formula_witness:
  "position exState = Some 30 \<and> startServerTs exState \<noteq> Some 0
   \<and> isPlaying exState \<and> startServerTs exState = Some 1000000
   \<and> updatedAt exState \<le> nowServerMs exService 1010000
   \<and> fst (snd (subscribe exService 1010000 (Some exState))) = Some 40
   \<and> fst (snd (subscribe exService 1010000 (Some (exState\<lparr>isPlaying := False\<rparr>)))) = Some 30
   \<and> fst (snd (subscribe exService 1010000 (Some (exState\<lparr>startServerTs := None\<rparr>)))) = Some 30"
proof -
  have h1: "position (exState\<lparr>isPlaying := b, startServerTs := x\<rparr>) = Some 30" for b x
    by (simp add: exState_def)
  have h2: "startServerTs exState \<noteq> Some 0" "startServerTs (exState\<lparr>isPlaying := False\<rparr>) \<noteq> Some 0"
      "startServerTs (exState\<lparr>startServerTs := None\<rparr>) \<noteq> Some 0"
    by (simp_all add: exState_def)
  have h1a: "position exState = Some 30" "position (exState\<lparr>isPlaying := False\<rparr>) = Some 30"
      "position (exState\<lparr>startServerTs := None\<rparr>) = Some 30"
    by (simp_all add: exState_def)
  show ?thesis
    using synced_position_formula [OF h1a(1) h2(1), of 1000000 exService 1010000]
          synced_position_formula [OF h1a(2) h2(2), of 1000000 exService 1010000]
          synced_position_formula [OF h1a(3) h2(3), of 1000000 exService 1010000]
    by (simp add: exState_def exService_def nowServerMs_def)
qed

lemma seekBurst_throttled:
  "seekThrottle svc \<Longrightarrow> seekBurst svc cur is = (svc, cur, [])"
  by (induction "is") (simp_all add: seek_def)

text \<open>
  C4, as amended. Of a burst of seek intents issued with no throttle timeout between them,
  at most one write reaches the store, and it is the write of the first intent: its position
  is the first intent's position, and so is the stored position afterwards. The later
  intents are dropped. No write at all is issued when the throttle timer was already set or
  the record is missing. The timer is set after the burst.
\<close>

theorem seek_burst_first_wins:
  "\<exists>svc' cur' ws. seekBurst svc cur (i # rest) = (svc', cur', ws)
     \<and> length ws \<le> 1
     \<and> map writePosition ws = (if seekThrottle svc \<or> cur = None then [] else [Some (seekPos i)])
     \<and> (if seekThrottle svc \<or> cur = None then cur' = cur
         else \<exists>c u. cur = Some c \<and> ws = [DbUpdate u] \<and> cur' = Some (merge_update u c)
                \<and> position (merge_update u c) = Some (seekPos i))
     \<and> seekThrottle svc' = True"
  by (cases cur)
     (auto simp add: seek_def seekBurst_throttled Let_def merge_update_def)

theorem seek_burst_first_wins_witness:
  "\<exists>svc' cur' ws. seekBurst exService (Some exState) [exIntent 10, exIntent 12, exIntent 15]
                    = (svc', cur', ws)
     \<and> length ws \<le> 1 \<and> map writePosition ws = [Some 10] \<and> seekThrottle svc'
     \<and> (case cur' of None \<Rightarrow> None | Some r \<Rightarrow> position r) = Some 10"
  using seek_burst_first_wins [of exService "Some exState" "exIntent 10" "[exIntent 12, exIntent 15]"]
  by (auto simp add: exService_def exIntent_def)

text \<open>
  C4 as stated fails: of the seek intents at 10, 12 and 15 issued in one throttle window, the
  one write that reaches the store has position 10, and the stored position is 10; no write
  has position 15.
\<close>

theorem seek_burst_last_intent_counterexample:
  "map writePosition
      (snd (snd (seekBurst exService (Some exState) [exIntent 10, exIntent 12, exIntent 15])))
     = [Some 10]
   \<and> Some 15 \<notin> set (map writePosition
        (snd (snd (seekBurst exService (Some exState) [exIntent 10, exIntent 12, exIntent 15]))))
   \<and> (case fst (snd (seekBurst exService (Some exState) [exIntent 10, exIntent 12, exIntent 15])) of
        None \<Rightarrow> None
      | Some r \<Rightarrow> position r) = Some 10"
  by (simp add: seek_def exService_def exIntent_def Let_def merge_update_def)

subsection \<open>The reconciler: one delivery\<close>

lemma isSameSong_fields:
  "isSameSong (c\<lparr>lastAppliedVersionRef := v\<rparr>) s = isSameSong c s"
  "isSameSong (c\<lparr>isSyncingRef := y\<rparr>) s = isSameSong c s"
  "isSameSong (c\<lparr>ctxIsPlaying := b\<rparr>) s = isSameSong c s"
  "isSameSong (c\<lparr>currentTime := t\<rparr>) s = isSameSong c s"
  "isSameSong (c\<lparr>hasInitialSyncedRef := h\<rparr>) s = isSameSong c s"
  "isSameSong (c\<lparr>pendingSyncPositionRef := p\<rparr>) s = isSameSong c s"
  "isSameSong (c\<lparr>ctxVolume := w\<rparr>) s = isSameSong c s"
  by (simp_all add: isSameSong_def)

lemma loadSong_fields:
  "lastAppliedVersionRef (loadSong c s t) = lastAppliedVersionRef c"
  "hasInitialSyncedRef (loadSong c s t) = hasInitialSyncedRef c"
  "ctxVolume (loadSong c s t) = ctxVolume c"
  "ctxIsPlaying (loadSong c s t) = ctxIsPlaying c"
  "isSyncingRef (loadSong c s t) = isSyncingRef c"
  "activeRoomId (loadSong c s t) = activeRoomId c"
  "activeUserId (loadSong c s t) = activeUserId c"
  "playerReady (loadSong c s t) = playerReady c"
  "currentTime (loadSong c s t) = (if isSameSong c s then currentTime c else 0)"
  "pendingSyncPositionRef (loadSong c s t) = (if isSameSong c s then pendingSyncPositionRef c else Some t)"
  "playerKey (loadSong c s t) = (if isSameSong c s then playerKey c else playerKey c + 1)"
  by (simp_all add: loadSong_def forcePlayerReload_def Let_def)

lemma loadSong_song:
  "\<exists>song. currentSong (loadSong c s t) = Some song \<and> song_id song = songId s"
  by (simp add: loadSong_def isSameSong_def forcePlayerReload_def Let_def split: option.splits)

lemma seekIfReady_fields:
  "lastAppliedVersionRef (fst (seekIfReady c p t)) = lastAppliedVersionRef c"
  "currentSong (fst (seekIfReady c p t)) = currentSong c"
  "ctxVolume (fst (seekIfReady c p t)) = ctxVolume c"
  "ctxIsPlaying (fst (seekIfReady c p t)) = ctxIsPlaying c"
  "currentTime (fst (seekIfReady c p t)) = currentTime c"
  "isSyncingRef (fst (seekIfReady c p t)) = isSyncingRef c"
  "activeRoomId (fst (seekIfReady c p t)) = activeRoomId c"
  "activeUserId (fst (seekIfReady c p t)) = activeUserId c"
  "playerKey (fst (seekIfReady c p t)) = playerKey c"
  "playerReady (fst (seekIfReady c p t)) = playerReady c"
  "isSameSong (fst (seekIfReady c p t)) s = isSameSong c s"
  by (simp_all add: seekIfReady_def isSameSong_def Let_def split: playerRef.splits)

lemma seekIfReady_first:
  "\<not> hasInitialSyncedRef c \<Longrightarrow>
     seekIfReady c (Player l) t = (c\<lparr>hasInitialSyncedRef := True, pendingSyncPositionRef := None\<rparr>, [SeekTo t])"
  "seekIfReady c NoPlayer t = (c\<lparr>pendingSyncPositionRef := Some t\<rparr>, [])"
  by (simp_all add: seekIfReady_def)

lemma syncVolume_fields:
  "lastAppliedVersionRef (syncVolume c s) = lastAppliedVersionRef c"
  "currentSong (syncVolume c s) = currentSong c"
  "ctxVolume (syncVolume c s) = volume s"
  "ctxIsPlaying (syncVolume c s) = ctxIsPlaying c"
  "currentTime (syncVolume c s) = currentTime c"
  "hasInitialSyncedRef (syncVolume c s) = hasInitialSyncedRef c"
  "pendingSyncPositionRef (syncVolume c s) = pendingSyncPositionRef c"
  "isSyncingRef (syncVolume c s) = isSyncingRef c"
  "activeRoomId (syncVolume c s) = activeRoomId c"
  "activeUserId (syncVolume c s) = activeUserId c"
  "playerKey (syncVolume c s) = playerKey c"
  "playerReady (syncVolume c s) = playerReady c"
  "isSameSong (syncVolume c s') s = isSameSong c s"
  by (simp_all add: syncVolume_def isSameSong_def)

lemma resubscribe_fields:
  "lastAppliedVersionRef (roomSyncEffect (roomSyncCleanup c)) = lastAppliedVersionRef c"
  "currentSong (roomSyncEffect (roomSyncCleanup c)) = currentSong c"
  "ctxVolume (roomSyncEffect (roomSyncCleanup c)) = ctxVolume c"
  "ctxIsPlaying (roomSyncEffect (roomSyncCleanup c)) = ctxIsPlaying c"
  "currentTime (roomSyncEffect (roomSyncCleanup c)) = currentTime c"
  "playerKey (roomSyncEffect (roomSyncCleanup c)) = playerKey c"
  "playerReady (roomSyncEffect (roomSyncCleanup c)) = playerReady c"
  "hasInitialSyncedRef (roomSyncEffect (roomSyncCleanup c)) = False"
  "pendingSyncPositionRef (roomSyncEffect (roomSyncCleanup c)) = None"
  by (simp_all add: roomSyncEffect_def roomSyncCleanup_def)

lemma renderAfterSync_fields:
  "lastAppliedVersionRef (renderAfterSync w s t c) = lastAppliedVersionRef c"
  "ctxVolume (renderAfterSync w s t c) = ctxVolume c"
  "ctxIsPlaying (renderAfterSync w s t c) = ctxIsPlaying c"
  "playerReady (renderAfterSync w s t c) = playerReady c"
  "currentTime (renderAfterSync w s t c) = (if isSameSong c s then currentTime c else 0)"
  "playerKey (renderAfterSync w s t c) = (if isSameSong c s then playerKey c else playerKey c + 1)"
  "hasInitialSyncedRef (renderAfterSync w s t c) = (ctxVolume c = w \<and> hasInitialSyncedRef c)"
  "pendingSyncPositionRef (renderAfterSync w s t c) =
     (if ctxVolume c \<noteq> w then None else if isSameSong c s then pendingSyncPositionRef c else Some t)"
  by (simp_all add: renderAfterSync_def Let_def loadSong_fields resubscribe_fields)

lemma renderAfterSync_song:
  "\<exists>song. currentSong (renderAfterSync w s t c) = Some song \<and> song_id song = songId s"
  using loadSong_song [of c s t] by (simp add: renderAfterSync_def Let_def resubscribe_fields)

lemma subscribe_Some:
  "subscribe svc now (Some s) = (Some s, fst (snd (subscribe svc now (Some s))), isEcho svc s)"
  by (simp add: subscribe_def isEcho_def Let_def eq_commute split: option.splits)

lemma subscribe_synced_Some:
  "\<exists>p. fst (snd (subscribe svc now (Some s))) = Some p"
  by (simp add: subscribe_def Let_def)


lemma deliver_stale:
  "snapshot d = Some s \<Longrightarrow> stateVersion s < lastAppliedVersionRef c \<Longrightarrow> deliver c d = (c, [])"
  by (simp add: deliver_def subscribe_def onPlaybackState_def stateVersion_def Let_def)

lemma deliver_Some:
  "snapshot d = Some s \<Longrightarrow>
     deliver c d = onPlaybackState c (playerAt d)
       (Some s, fst (snd (subscribe (svcAt d) (arrival d) (Some s))), isEcho (svcAt d) s)"
  using subscribe_Some [of "svcAt d" "arrival d" s] by (simp add: deliver_def)

lemma deliver_echo:
  "snapshot d = Some s \<Longrightarrow> isEcho (svcAt d) s \<Longrightarrow> \<not> stateVersion s < lastAppliedVersionRef c \<Longrightarrow>
     deliver c d = (c\<lparr>lastAppliedVersionRef := stateVersion s\<rparr>, [])"
  by (simp add: deliver_Some onPlaybackState_def stateVersion_def Let_def)

lemma deliver_remote_eq:
  assumes "snapshot d = Some s" "\<not> isEcho (svcAt d) s" "\<not> stateVersion s < lastAppliedVersionRef c"
    and "fst (snd (subscribe (svcAt d) (arrival d) (Some s))) = Some t"
  shows "deliver c d =
     (let r = seekIfReady
                (c\<lparr>lastAppliedVersionRef := stateVersion s, isSyncingRef := True,
                   ctxIsPlaying := isPlaying s, currentTime := t\<rparr>) (playerAt d) t
      in (renderAfterSync (ctxVolume c) s t (syncVolume (fst r) s), snd r))"
  using assms
  by (simp add: deliver_Some onPlaybackState_def stateVersion_def Let_def)

lemma deliver_lastApplied:
  assumes "snapshot d = Some s"
  shows "lastAppliedVersionRef (fst (deliver c d)) = max (lastAppliedVersionRef c) (stateVersion s)"
proof (cases "stateVersion s < lastAppliedVersionRef c")
  case True
  then show ?thesis using deliver_stale [OF assms True] by simp
next
  case False
  show ?thesis
  proof (cases "isEcho (svcAt d) s")
    case True
    then show ?thesis using deliver_echo [OF assms True False] False by simp
  next
    case ne: False
    obtain t where t: "fst (snd (subscribe (svcAt d) (arrival d) (Some s))) = Some t"
      using subscribe_synced_Some by blast
    show ?thesis
      using False
      by (simp add: deliver_remote_eq [OF assms ne False t] Let_def renderAfterSync_fields
          syncVolume_fields seekIfReady_fields)
  qed
qed

lemma deliver_remote:
  assumes "snapshot d = Some s" "\<not> isEcho (svcAt d) s" "lastAppliedVersionRef c \<le> stateVersion s"
  shows "(\<exists>song. currentSong (fst (deliver c d)) = Some song \<and> song_id song = songId s)
     \<and> ctxIsPlaying (fst (deliver c d)) = isPlaying s
     \<and> ctxVolume (fst (deliver c d)) = volume s
     \<and> (if isSameSong c s
        then fst (snd (subscribe (svcAt d) (arrival d) (snapshot d)))
               = Some (currentTime (fst (deliver c d)))
             \<and> playerKey (fst (deliver c d)) = playerKey c
        else currentTime (fst (deliver c d)) = 0
             \<and> playerKey (fst (deliver c d)) = playerKey c + 1
             \<and> (volume s = ctxVolume c \<longrightarrow>
                  pendingSyncPositionRef (fst (deliver c d))
                    = fst (snd (subscribe (svcAt d) (arrival d) (snapshot d)))))"
proof -
  obtain t where t: "fst (snd (subscribe (svcAt d) (arrival d) (Some s))) = Some t"
    using subscribe_synced_Some by blast
  have ns: "\<not> stateVersion s < lastAppliedVersionRef c" using assms(3) by simp
  show ?thesis
    using t assms(1) renderAfterSync_song
    by (simp add: deliver_remote_eq [OF assms(1) assms(2) ns t] Let_def renderAfterSync_fields
        syncVolume_fields seekIfReady_fields isSameSong_fields)
qed

text \<open>
  C2, as amended. For a delivered record whose \<open>opId\<close> is the client's \<open>lastUserOpId\<close>, the
  service calls the update local, and the callback makes no call on the player, shows no
  toast and changes no state of the provider but \<open>lastAppliedVersionRef\<close>: that becomes the
  record's version when the version is not below it, and is left as it is when the version
  is below it (the update is then discarded like any stale one).
\<close>

theorem echo_touches_only_version:
  assumes "snapshot d = Some s" and "opId s = Some i" and "lastUserOpId (svcAt d) = Some i"
  shows "subscribe (svcAt d) (arrival d) (snapshot d)
           = (Some s, fst (snd (subscribe (svcAt d) (arrival d) (snapshot d))), True)
       \<and> deliver c d =
           (if stateVersion s < lastAppliedVersionRef c then c
            else c\<lparr>lastAppliedVersionRef := stateVersion s\<rparr>, [])"
proof -
  have echo: "isEcho (svcAt d) s" using assms(2,3) by (simp add: isEcho_def)
  have "subscribe (svcAt d) (arrival d) (snapshot d)
           = (Some s, fst (snd (subscribe (svcAt d) (arrival d) (snapshot d))), True)"
    using subscribe_Some [of "svcAt d" "arrival d" s] echo assms(1) by simp
  moreover have "deliver c d =
           (if stateVersion s < lastAppliedVersionRef c then c
            else c\<lparr>lastAppliedVersionRef := stateVersion s\<rparr>, [])"
    using deliver_stale [OF assms(1)] deliver_echo [OF assms(1) echo] by simp
  ultimately show ?thesis by simp
qed

theorem echo_touches_only_version_witness:
  "snapshot (exDelivery 7\<lparr>snapshot := Some (exState\<lparr>version := Some 7, opId := Some ''1700-abc123''\<rparr>)\<rparr>)
     = Some (exState\<lparr>version := Some 7, opId := Some ''1700-abc123''\<rparr>)
   \<and> lastUserOpId exService = Some ''1700-abc123''
   \<and> deliver exPlayer
        (exDelivery 7\<lparr>snapshot := Some (exState\<lparr>version := Some 7, opId := Some ''1700-abc123''\<rparr>)\<rparr>)
       = (exPlayer\<lparr>lastAppliedVersionRef := 7\<rparr>, [])"
  using echo_touches_only_version
    [of "exDelivery 7\<lparr>snapshot := Some (exState\<lparr>version := Some 7, opId := Some ''1700-abc123''\<rparr>)\<rparr>"
        "exState\<lparr>version := Some 7, opId := Some ''1700-abc123''\<rparr>" "''1700-abc123''" exPlayer]
  by (simp add: exDelivery_def exService_def exState_def exPlayer_def stateVersion_def)

text \<open>
  C2 as stated fails for an echo that arrives stale: with version 5 applied, the client's own
  update of version 3 leaves \<open>lastAppliedVersionRef\<close> at 5, not at the update's version.
\<close>

theorem echo_stale_version_counterexample:
  "opId (exState\<lparr>version := Some 3, opId := Some ''1700-abc123''\<rparr>) = lastUserOpId exService
   \<and> lastAppliedVersionRef exPlayer = 5
   \<and> lastAppliedVersionRef
        (fst (deliver exPlayer
               \<lparr> snapshot = Some (exState\<lparr>version := Some 3, opId := Some ''1700-abc123''\<rparr>),
                 svcAt = exService, arrival = 1010000, playerAt = Player (Some 12) \<rparr>)) = 5"
  by (simp add: deliver_def subscribe_def onPlaybackState_def exService_def exState_def exPlayer_def
      Let_def)

text \<open>
  C9, as amended. When the playback record is gone, \<open>subscribe\<close> calls the subscriber with a
  null state, a null position and \<open>isLocal\<close> false, and the callback of the provider returns
  at once: no state of the provider changes, no call is made on the player and no toast is
  shown.
\<close>

theorem deleted_record_ignored:
  "subscribe svc now None = (None, None, False)
   \<and> onPlaybackState c player (subscribe svc now None) = (c, [])
   \<and> deliver c (d\<lparr>snapshot := None\<rparr>) = (c, [])"
  by (simp add: deliver_def subscribe_def onPlaybackState_def)

theorem deleted_record_ignored_witness:
  "subscribe exService 1010000 None = (None, None, False)
   \<and> deliver exPlayer ((exDelivery 5)\<lparr>snapshot := None\<rparr>) = (exPlayer, [])"
  using deleted_record_ignored [of exService 1010000 exPlayer "Player (Some 12)" "exDelivery 5"]
  by simp

text \<open>
  C9 as stated fails: a client that is playing and receives the null snapshot is still
  playing afterwards, and nothing is shown to the user.
\<close>

theorem deleted_record_ignored_counterexample:
  "subscribe exService 1010000 None = (None, None, False)
   \<and> ctxIsPlaying exPlayer
   \<and> deliver exPlayer \<lparr> snapshot = None, svcAt = exService, arrival = 1010000,
                          playerAt = Player (Some 12) \<rparr> = (exPlayer, [])"
  by (simp add: deliver_def subscribe_def onPlaybackState_def exPlayer_def)

subsection \<open>The reconciler: sequences of deliveries\<close>









subsection \<open>A client that joins\<close>

text \<open>
  The versions the service writes are counted from 1: a record it writes or updates has a
  version of at least 1, and a heartbeat keeps the version, when the version read was not
  negative.
\<close>

lemma written_versions:
  assumes "case cur of None \<Rightarrow> True | Some c \<Rightarrow> 0 \<le> stateVersion c"
  shows "case fst (snd (playSong svc cur userId sid meta vol e)) of
           Some (DbSet r) \<Rightarrow> 1 \<le> stateVersion r | _ \<Rightarrow> False"
    and "case snd (pause svc cur userId pos e) of
           Some (DbUpdate u) \<Rightarrow> (\<exists>v. u_version u = Some v \<and> 1 \<le> v) | Some (DbSet r) \<Rightarrow> False
         | None \<Rightarrow> True"
    and "case snd (resume svc cur userId pos e) of
           Some (DbUpdate u) \<Rightarrow> (\<exists>v. u_version u = Some v \<and> 1 \<le> v) | Some (DbSet r) \<Rightarrow> False
         | None \<Rightarrow> True"
    and "case snd (seek svc cur userId pos playing e) of
           Some (DbUpdate u) \<Rightarrow> (\<exists>v. u_version u = Some v \<and> 1 \<le> v) | Some (DbSet r) \<Rightarrow> False
         | None \<Rightarrow> True"
    and "case heartbeatTick userId ps cur e of
           Some (DbUpdate u) \<Rightarrow> u_version u = None | Some (DbSet r) \<Rightarrow> False | None \<Rightarrow> True"
  using assms
  by (cases cur; simp add: playSong_def pause_def resume_def seek_def heartbeatTick_def
        getNextVersion_def stateVersion_def Let_def split: option.splits)+

lemma inRoom_deliver_parts:
  "inRoom (c\<lparr>lastAppliedVersionRef := v, isSyncingRef := y, ctxIsPlaying := b, currentTime := t\<rparr>)
     = inRoom c"
  "inRoom (fst (seekIfReady c p t)) = inRoom c"
  "inRoom (syncVolume c s) = inRoom c"
  "inRoom (renderAfterSync w s t c) = inRoom c"
  "inRoom (c\<lparr>playerReady := r\<rparr>) = inRoom c"
  by (simp_all add: inRoom_def seekIfReady_fields syncVolume_fields renderAfterSync_def Let_def
      loadSong_fields roomSyncEffect_def roomSyncCleanup_def)

lemma first_sync:
  assumes snap: "snapshot d = Some s" and remote: "\<not> isEcho (svcAt d) s"
    and fresh: "\<not> hasInitialSyncedRef c0" and le: "lastAppliedVersionRef c0 \<le> stateVersion s"
    and t: "fst (snd (subscribe (svcAt d) (arrival d) (Some s))) = Some t"
  shows "playerAt d = Player l \<Longrightarrow> snd (deliver c0 d) = [SeekTo t]"
    and "playerAt d = NoPlayer \<Longrightarrow> snd (deliver c0 d) = []"
    and "playerAt d = Player l \<Longrightarrow> isSameSong c0 s \<Longrightarrow> volume s = ctxVolume c0 \<Longrightarrow>
           hasInitialSyncedRef (fst (deliver c0 d)) \<and> pendingSyncPositionRef (fst (deliver c0 d)) = None"
    and "playerAt d = NoPlayer \<Longrightarrow> volume s = ctxVolume c0 \<Longrightarrow>
           pendingSyncPositionRef (fst (deliver c0 d)) = Some t"
    and "volume s \<noteq> ctxVolume c0 \<Longrightarrow>
           \<not> hasInitialSyncedRef (fst (deliver c0 d)) \<and> pendingSyncPositionRef (fst (deliver c0 d)) = None"
    and "inRoom (fst (deliver c0 d)) = inRoom c0"
    and "playerReady (fst (deliver c0 d)) = playerReady c0"
proof -
  have ns: "\<not> stateVersion s < lastAppliedVersionRef c0" using le by simp
  note eq = deliver_remote_eq [OF snap remote ns t]
  show "playerAt d = Player l \<Longrightarrow> snd (deliver c0 d) = [SeekTo t]"
    using fresh by (simp add: eq Let_def seekIfReady_first)
  show "playerAt d = NoPlayer \<Longrightarrow> snd (deliver c0 d) = []"
    by (simp add: eq Let_def seekIfReady_first)
  show "playerAt d = Player l \<Longrightarrow> isSameSong c0 s \<Longrightarrow> volume s = ctxVolume c0 \<Longrightarrow>
           hasInitialSyncedRef (fst (deliver c0 d)) \<and> pendingSyncPositionRef (fst (deliver c0 d)) = None"
    using fresh
    by (simp add: eq Let_def seekIfReady_first renderAfterSync_fields syncVolume_fields
        isSameSong_fields)
  show "playerAt d = NoPlayer \<Longrightarrow> volume s = ctxVolume c0 \<Longrightarrow>
           pendingSyncPositionRef (fst (deliver c0 d)) = Some t"
    by (simp add: eq Let_def seekIfReady_first renderAfterSync_fields syncVolume_fields
        isSameSong_fields)
  show "volume s \<noteq> ctxVolume c0 \<Longrightarrow>
           \<not> hasInitialSyncedRef (fst (deliver c0 d)) \<and> pendingSyncPositionRef (fst (deliver c0 d)) = None"
    by (simp add: eq Let_def renderAfterSync_fields syncVolume_fields)
  show "inRoom (fst (deliver c0 d)) = inRoom c0"
    by (simp add: eq Let_def inRoom_deliver_parts)
  show "playerReady (fst (deliver c0 d)) = playerReady c0"
    by (simp add: eq Let_def renderAfterSync_fields syncVolume_fields seekIfReady_fields)
qed

lemma onPlayerReady_pending:
  assumes "pendingSyncPositionRef c = Some t" "inRoom c" "\<not> playerReady c"
  shows "onPlayerReady c l =
     (c\<lparr>playerReady := True, hasInitialSyncedRef := True, pendingSyncPositionRef := None\<rparr>, [SeekTo t])"
  using assms by (simp add: onPlayerReady_def pendingSyncEffect_def Let_def inRoom_deliver_parts)

lemma joined_fields:
  assumes "roomId \<noteq> []" "userId \<noteq> []"
  shows "lastAppliedVersionRef (roomSyncEffect (setActiveRoom (Some roomId) (Some userId) c)) = 0"
    and "hasInitialSyncedRef (roomSyncEffect (setActiveRoom (Some roomId) (Some userId) c)) = False"
    and "pendingSyncPositionRef (roomSyncEffect (setActiveRoom (Some roomId) (Some userId) c)) = None"
    and "inRoom (roomSyncEffect (setActiveRoom (Some roomId) (Some userId) c))"
    and "isSameSong (roomSyncEffect (setActiveRoom (Some roomId) (Some userId) c)) s = isSameSong c s"
    and "playerKey (roomSyncEffect (setActiveRoom (Some roomId) (Some userId) c)) = playerKey c"
    and "ctxVolume (roomSyncEffect (setActiveRoom (Some roomId) (Some userId) c)) = ctxVolume c"
    and "playerReady (roomSyncEffect (setActiveRoom (Some roomId) (Some userId) c)) = playerReady c"
  using assms
  by (simp_all add: roomSyncEffect_def setActiveRoom_def inRoom_def truthy_def isSameSong_def Let_def)

text \<open>
  C6, as amended. Let a client set the active room and start the room sync effect: the
  applied version is reset to 0 and no sync has been made. It applies the first record it
  observes, whatever version the service has written in it (a version from 1 on), unless
  the record is an echo of the client's own last operation: the applied version, the song,
  the play flag and the volume become the record's, and the player is reloaded when the song
  differs. The synced position is then sought whatever the distance from the player's time:
  at once when the song is already the current one and its player is mounted; and when no
  player is mounted yet, it is stored as pending and sought by the pending sync effect when
  the player becomes ready. When the record's volume differs from the client's, the room
  effect is set up again with both refs reset, and the record its new subscription delivers
  is sought in the same way (at once when a player is mounted for the song, as pending
  otherwise). For a record playing from position 30 with a nonzero
  \<open>startServerTs\<close> of \<open>T0\<close>, observed at server time \<open>T0 + 10000\<close> ms, the position is 40. Nothing
  is stated of a client whose mounted player belongs to another song: the seek the callback
  makes then reaches the player that is about to be replaced.
\<close>

theorem late_joiner_hard_seek:
  assumes "roomId \<noteq> []" and "userId \<noteq> []"
    and c0: "c0 = roomSyncEffect (setActiveRoom (Some roomId) (Some userId) c)"
    and snap: "snapshot d = Some s" and ver: "0 \<le> stateVersion s"
    and remote: "\<not> isEcho (svcAt d) s"
    and c1: "c1 = fst (deliver c0 d)"
  shows "\<exists>t. fst (snd (subscribe (svcAt d) (arrival d) (snapshot d))) = Some t
       \<and> lastAppliedVersionRef c1 = stateVersion s
       \<and> (\<exists>song. currentSong c1 = Some song \<and> song_id song = songId s)
       \<and> ctxIsPlaying c1 = isPlaying s \<and> ctxVolume c1 = volume s
       \<and> playerKey c1 = (if isSameSong c s then playerKey c else playerKey c + 1)
       \<and> (isSameSong c s \<longrightarrow> currentTime c1 = t)
       \<and> (\<forall>l. isSameSong c s \<and> playerAt d = Player l \<longrightarrow>
             snd (deliver c0 d) = [SeekTo t]
             \<and> (volume s = ctxVolume c \<longrightarrow>
                  hasInitialSyncedRef c1 \<and> pendingSyncPositionRef c1 = None))
       \<and> (playerAt d = NoPlayer \<longrightarrow>
             snd (deliver c0 d) = []
             \<and> (volume s = ctxVolume c \<longrightarrow>
                  pendingSyncPositionRef c1 = Some t
                  \<and> (\<not> playerReady c \<longrightarrow>
                       (\<forall>l. snd (onPlayerReady c1 l) = [SeekTo t]
                            \<and> hasInitialSyncedRef (fst (onPlayerReady c1 l))
                            \<and> pendingSyncPositionRef (fst (onPlayerReady c1 l)) = None))))
       \<and> (volume s \<noteq> ctxVolume c \<longrightarrow>
             \<not> hasInitialSyncedRef c1 \<and> pendingSyncPositionRef c1 = None
             \<and> (\<forall>d' l. (isSameSong c s \<or> \<not> playerReady c) \<and> snapshot d' = Some s
                      \<and> \<not> isEcho (svcAt d') s \<and> playerAt d' = Player l \<longrightarrow>
                   (\<exists>t'. fst (snd (subscribe (svcAt d') (arrival d') (snapshot d'))) = Some t'
                        \<and> snd (deliver c1 d') = [SeekTo t']
                        \<and> currentTime (fst (deliver c1 d')) = t'
                        \<and> hasInitialSyncedRef (fst (deliver c1 d'))))
             \<and> (\<forall>d'. snapshot d' = Some s \<and> \<not> isEcho (svcAt d') s \<and> playerAt d' = NoPlayer \<longrightarrow>
                   pendingSyncPositionRef (fst (deliver c1 d'))
                     = fst (snd (subscribe (svcAt d') (arrival d') (snapshot d')))))
       \<and> (isPlaying s \<and> position s = Some 30 \<and> startServerTs s = Some T0 \<and> T0 \<noteq> 0
            \<and> nowServerMs (svcAt d) (arrival d) = T0 + 10000 \<longrightarrow> t = 40)"
proof -
  obtain t where t: "fst (snd (subscribe (svcAt d) (arrival d) (Some s))) = Some t"
    using subscribe_synced_Some by blast
  have j: "lastAppliedVersionRef c0 = 0" "\<not> hasInitialSyncedRef c0" "inRoom c0"
      "isSameSong c0 s = isSameSong c s" "playerKey c0 = playerKey c" "ctxVolume c0 = ctxVolume c"
      "playerReady c0 = playerReady c"
    using joined_fields [OF assms(1,2)] by (simp_all add: c0)
  have le: "lastAppliedVersionRef c0 \<le> stateVersion s" using ver j by simp
  note fs = first_sync [OF snap remote j(2) le t]
  have ver1: "lastAppliedVersionRef c1 = stateVersion s"
    using le by (simp add: c1 deliver_lastApplied [OF snap])
  have rem: "(\<exists>song. currentSong c1 = Some song \<and> song_id song = songId s)"
      "ctxIsPlaying c1 = isPlaying s" "ctxVolume c1 = volume s"
      "playerKey c1 = (if isSameSong c s then playerKey c else playerKey c + 1)"
      "isSameSong c s \<longrightarrow> currentTime c1 = t"
    using deliver_remote [OF snap remote le] t snap j by (auto simp add: c1 split: if_splits)
  have same1: "isSameSong c1 s" using rem(1) by (auto simp add: isSameSong_def)
  have player: "\<forall>l. isSameSong c s \<and> playerAt d = Player l \<longrightarrow>
             snd (deliver c0 d) = [SeekTo t]
             \<and> (volume s = ctxVolume c \<longrightarrow>
                  hasInitialSyncedRef c1 \<and> pendingSyncPositionRef c1 = None)"
    using fs(1) fs(3) j by (simp add: c1)
  have ready: "snd (onPlayerReady c1 l) = [SeekTo t]
        \<and> hasInitialSyncedRef (fst (onPlayerReady c1 l))
        \<and> pendingSyncPositionRef (fst (onPlayerReady c1 l)) = None"
    if "playerAt d = NoPlayer" "volume s = ctxVolume c" "\<not> playerReady c" for l
  proof -
    have "pendingSyncPositionRef c1 = Some t" using fs(4) that j by (simp add: c1)
    moreover have "inRoom c1" using fs(6) j by (simp add: c1)
    moreover have "\<not> playerReady c1" using fs(7) j that by (simp add: c1)
    ultimately show ?thesis using onPlayerReady_pending [of c1 t l] by simp
  qed
  have noplayer: "playerAt d = NoPlayer \<longrightarrow>
             snd (deliver c0 d) = []
             \<and> (volume s = ctxVolume c \<longrightarrow>
                  pendingSyncPositionRef c1 = Some t
                  \<and> (\<not> playerReady c \<longrightarrow>
                       (\<forall>l. snd (onPlayerReady c1 l) = [SeekTo t]
                            \<and> hasInitialSyncedRef (fst (onPlayerReady c1 l))
                            \<and> pendingSyncPositionRef (fst (onPlayerReady c1 l)) = None)))"
    using fs(2) fs(4) j ready by (simp add: c1)
  have again: "\<not> hasInitialSyncedRef c1 \<and> pendingSyncPositionRef c1 = None
             \<and> (\<forall>d' l. (isSameSong c s \<or> \<not> playerReady c) \<and> snapshot d' = Some s
                      \<and> \<not> isEcho (svcAt d') s \<and> playerAt d' = Player l \<longrightarrow>
                   (\<exists>t'. fst (snd (subscribe (svcAt d') (arrival d') (snapshot d'))) = Some t'
                        \<and> snd (deliver c1 d') = [SeekTo t']
                        \<and> currentTime (fst (deliver c1 d')) = t'
                        \<and> hasInitialSyncedRef (fst (deliver c1 d'))))
             \<and> (\<forall>d'. snapshot d' = Some s \<and> \<not> isEcho (svcAt d') s \<and> playerAt d' = NoPlayer \<longrightarrow>
                   pendingSyncPositionRef (fst (deliver c1 d'))
                     = fst (snd (subscribe (svcAt d') (arrival d') (snapshot d'))))"
    if differs: "volume s \<noteq> ctxVolume c"
  proof -
    have reset: "\<not> hasInitialSyncedRef c1" "pendingSyncPositionRef c1 = None"
      using fs(5) differs j by (simp_all add: c1)
    have le1: "lastAppliedVersionRef c1 \<le> stateVersion s" using ver1 by simp
    have p: "\<exists>t'. fst (snd (subscribe (svcAt d') (arrival d') (snapshot d'))) = Some t'
                        \<and> snd (deliver c1 d') = [SeekTo t']
                        \<and> currentTime (fst (deliver c1 d')) = t'
                        \<and> hasInitialSyncedRef (fst (deliver c1 d'))"
      if d': "snapshot d' = Some s" "\<not> isEcho (svcAt d') s" "playerAt d' = Player l" for d' l
    proof -
      obtain t' where t': "fst (snd (subscribe (svcAt d') (arrival d') (Some s))) = Some t'"
        using subscribe_synced_Some by blast
      note fs' = first_sync [OF d'(1) d'(2) reset(1) le1 t']
      have "currentTime (fst (deliver c1 d')) = t'"
        using deliver_remote [OF d'(1) d'(2) le1] same1 t' d'(1) by simp
      then show ?thesis using fs'(1) [OF d'(3)] fs'(3) [OF d'(3) same1] rem(3) t' d'(1) by simp
    qed
    have n: "pendingSyncPositionRef (fst (deliver c1 d'))
                     = fst (snd (subscribe (svcAt d') (arrival d') (snapshot d')))"
      if d': "snapshot d' = Some s" "\<not> isEcho (svcAt d') s" "playerAt d' = NoPlayer" for d'
    proof -
      obtain t' where t': "fst (snd (subscribe (svcAt d') (arrival d') (Some s))) = Some t'"
        using subscribe_synced_Some by blast
      note fs' = first_sync [OF d'(1) d'(2) reset(1) le1 t']
      show ?thesis using fs'(4) [OF d'(3)] rem(3) t' d'(1) by simp
    qed
    show ?thesis using reset p n by blast
  qed
  have scen: "isPlaying s \<and> position s = Some 30 \<and> startServerTs s = Some T0 \<and> T0 \<noteq> 0
            \<and> nowServerMs (svcAt d) (arrival d) = T0 + 10000 \<longrightarrow> t = 40"
    using t by (auto simp add: subscribe_def Let_def)
  show ?thesis
    using t snap ver1 rem player noplayer again scen
    by (intro exI [of _ t]) (simp only: simp_thms, blast)
qed

theorem late_joiner_hard_seek_witness:
  "''room1'' \<noteq> [] \<and> ''bob'' \<noteq> []
   \<and> snapshot (exJoin NoPlayer) = Some exState \<and> 0 \<le> stateVersion exState
   \<and> \<not> isEcho (svcAt (exJoin NoPlayer)) exState
   \<and> lastAppliedVersionRef
        (fst (deliver (roomSyncEffect (setActiveRoom (Some ''room1'') (Some ''bob'') exFresh))
               (exJoin NoPlayer))) = 5
   \<and> pendingSyncPositionRef
        (fst (deliver (roomSyncEffect (setActiveRoom (Some ''room1'') (Some ''bob'') exFresh))
               (exJoin NoPlayer))) = Some 40
   \<and> snd (onPlayerReady
            (fst (deliver (roomSyncEffect (setActiveRoom (Some ''room1'') (Some ''bob'') exFresh))
                   (exJoin NoPlayer))) (Some 0)) = [SeekTo 40]
   \<and> \<bar>39.5 - 40\<bar> \<le> (2::real)
   \<and> snd (deliver
            (roomSyncEffect (setActiveRoom (Some ''room1'') (Some ''bob'')
               (exPlayer\<lparr>currentSong := Some \<lparr> song_id = ''song1'', song_title = ''Title'',
                                                song_artist = ''Artist'',
                                                song_thumbnail = ''thumb.png'',
                                                song_duration = None \<rparr>\<rparr>)))
            (exJoin (Player (Some 39.5)))) = [SeekTo 40]"
proof -
  let ?loaded = "exPlayer\<lparr>currentSong := Some \<lparr> song_id = ''song1'', song_title = ''Title'',
      song_artist = ''Artist'', song_thumbnail = ''thumb.png'', song_duration = None \<rparr>\<rparr>"
  have h1: "''room1'' \<noteq> []" and h2: "''bob'' \<noteq> []" by simp_all
  have h3: "snapshot (exJoin p) = Some exState" for p by (simp add: exJoin_def)
  have h4: "0 \<le> stateVersion exState" by (simp add: stateVersion_def exState_def)
  have h5: "\<not> isEcho (svcAt (exJoin p)) exState" for p
    by (simp add: isEcho_def exJoin_def exState_def)
  have same: "isSameSong ?loaded exState" by (simp add: isSameSong_def exState_def)
  have vol: "volume exState = ctxVolume exFresh" by (simp add: exState_def exFresh_def)
  have nr: "\<not> playerReady exFresh" by (simp add: exFresh_def)
  have scen: "isPlaying exState \<and> position exState = Some 30 \<and> startServerTs exState = Some 1000000
      \<and> (1000000::real) \<noteq> 0
      \<and> nowServerMs (svcAt (exJoin p)) (arrival (exJoin p)) = 1000000 + 10000" for p
    by (simp add: exState_def exJoin_def exService_def nowServerMs_def)
  show ?thesis
    using h3 [of NoPlayer] h4 h5 [of NoPlayer] same vol nr scen [of NoPlayer]
      scen [of "Player (Some 39.5)"]
      late_joiner_hard_seek [OF h1 h2 refl h3 h4 h5 refl, of NoPlayer exFresh 1000000]
      late_joiner_hard_seek [OF h1 h2 refl h3 h4 h5 refl, of "Player (Some 39.5)" ?loaded 1000000]
    by (auto simp add: stateVersion_def exJoin_def exState_def)
qed

text \<open>
  C6 as stated fails for a client that joins with its own last operation still in the record
  (it left the room and came back): it takes the first record for an echo, sets the applied
  version to 5 and neither loads the song nor seeks nor stores a pending position.
\<close>

theorem late_joiner_echo_counterexample:
  "lastAppliedVersionRef (roomSyncEffect (setActiveRoom (Some ''room1'') (Some ''alice'') exPlayer)) = 0
   \<and> isEcho exService (exState\<lparr>opId := Some ''1700-abc123''\<rparr>)
   \<and> deliver (roomSyncEffect (setActiveRoom (Some ''room1'') (Some ''alice'') exPlayer))
        (exDelivery 5\<lparr>snapshot := Some (exState\<lparr>opId := Some ''1700-abc123''\<rparr>)\<rparr>)
       = ((roomSyncEffect (setActiveRoom (Some ''room1'') (Some ''alice'') exPlayer))
            \<lparr>lastAppliedVersionRef := 5\<rparr>, [])
   \<and> currentSong (roomSyncEffect (setActiveRoom (Some ''room1'') (Some ''alice'') exPlayer)) = None
   \<and> pendingSyncPositionRef (roomSyncEffect (setActiveRoom (Some ''room1'') (Some ''alice'') exPlayer))
       = None"
  by (simp add: deliver_def subscribe_def onPlaybackState_def roomSyncEffect_def setActiveRoom_def
      inRoom_def truthy_def isEcho_def exDelivery_def exService_def exState_def exPlayer_def Let_def)

subsection \<open>The room queue\<close>

lemma compareItems_le_iff: "compareItems lc a b \<le> 0 \<longleftrightarrow> queueLe lc a b"
  by (auto simp add: compareItems_def queueLe_def queueKey_def Let_def)

lemma set_insertBy: "set (insertBy cmp x xs) = insert x (set xs)"
  by (induction xs) auto

lemma mset_insertBy: "mset (insertBy cmp x xs) = add_mset x (mset xs)"
  by (induction xs) auto

lemma mset_arraySort: "mset (arraySort cmp xs) = mset xs"
  by (induction xs) (simp_all add: arraySort_def mset_insertBy)

lemma sorted_insertBy:
  assumes total: "\<And>a b. le a b \<or> le b a"
    and trans: "\<And>a b c. le a b \<Longrightarrow> le b c \<Longrightarrow> le a c"
    and cmp: "\<And>a b. cmp a b \<le> 0 \<longleftrightarrow> le a b"
  shows "sorted_wrt le xs \<Longrightarrow> sorted_wrt le (insertBy cmp x xs)"
proof (induction xs)
  case Nil
  then show ?case by simp
next
  case (Cons y ys)
  show ?case
  proof (cases "cmp x y \<le> 0")
    case True
    then have xy: "le x y" by (simp add: cmp)
    have "\<forall>z\<in>set ys. le x z" using Cons.prems xy trans by auto
    then show ?thesis using True xy Cons.prems by simp
  next
    case False
    then have yx: "le y x" using total [of x y] by (simp add: cmp)
    then show ?thesis using False Cons by (simp add: set_insertBy)
  qed
qed

lemma sorted_arraySort:
  assumes total: "\<And>a b. le a b \<or> le b a"
    and trans: "\<And>a b c. le a b \<Longrightarrow> le b c \<Longrightarrow> le a c"
    and cmp: "\<And>a b. cmp a b \<le> 0 \<longleftrightarrow> le a b"
  shows "sorted_wrt le (arraySort cmp xs)"
proof (induction xs)
  case Nil
  then show ?case by (simp add: arraySort_def)
next
  case (Cons x xs)
  have "arraySort cmp (x # xs) = insertBy cmp x (arraySort cmp xs)" by (simp add: arraySort_def)
  then show ?case using sorted_insertBy [of le cmp, OF total trans cmp] Cons by simp
qed

lemma sorted_wrt_unique:
  assumes anti: "\<And>a b. a \<in> set xs \<Longrightarrow> b \<in> set xs \<Longrightarrow> le a b \<Longrightarrow> le b a \<Longrightarrow> a = b"
  shows "sorted_wrt le xs \<Longrightarrow> sorted_wrt le ys \<Longrightarrow> mset xs = mset ys \<Longrightarrow> xs = ys"
  using anti
proof (induction xs arbitrary: ys)
  case Nil
  then show ?case by simp
next
  case (Cons x xs)
  then obtain y ys' where ys: "ys = y # ys'" by (cases ys) auto
  have sets: "set (x # xs) = set (y # ys')" using Cons.prems(3) ys by (metis mset_eq_setD)
  have "x = y"
  proof (rule ccontr)
    assume ne: "x \<noteq> y"
    have "x \<in> set ys'" using sets ne by auto
    then have yx: "le y x" using Cons.prems(2) ys by auto
    have "y \<in> set xs" using sets ne by auto
    then have xy: "le x y" using Cons.prems(1) by auto
    have "y \<in> set (x # xs)" using sets by auto
    then show False using Cons.prems(4) [of x y] xy yx ne by auto
  qed
  moreover have "xs = ys'"
  proof (rule Cons.IH)
    show "sorted_wrt le xs" using Cons.prems(1) by simp
    show "sorted_wrt le ys'" using Cons.prems(2) ys by simp
    show "mset xs = mset ys'" using Cons.prems(3) ys \<open>x = y\<close> by simp
    show "\<And>a b. a \<in> set xs \<Longrightarrow> b \<in> set xs \<Longrightarrow> le a b \<Longrightarrow> le b a \<Longrightarrow> a = b"
      using Cons.prems(4) by auto
  qed
  ultimately show ?case using ys by simp
qed

lemma queueLe_total: "collation lc \<Longrightarrow> queueLe lc a b \<or> queueLe lc b a"
  unfolding collation_def queueLe_def by (metis linorder_neqE_linordered_idom)

lemma queueLe_trans: "collation lc \<Longrightarrow> queueLe lc a b \<Longrightarrow> queueLe lc b c \<Longrightarrow> queueLe lc a c"
  unfolding collation_def queueLe_def by (smt (verit, best))

lemma queueLe_antisym:
  "collation lc \<Longrightarrow> queueLe lc a b \<Longrightarrow> queueLe lc b a \<Longrightarrow> itemId a = itemId b"
  unfolding collation_def queueLe_def by (metis less_irrefl less_trans)

lemma toItem_same_id:
  assumes "distinct (map fst es)" "a \<in> set (map toItem es)" "b \<in> set (map toItem es)"
    and "itemId a = itemId b"
  shows "a = b"
proof -
  obtain ka va where a: "a = toItem (ka, va)" "(ka, va) \<in> set es" using assms(2) by auto
  obtain kb vb where b: "b = toItem (kb, vb)" "(kb, vb) \<in> set es" using assms(3) by auto
  have "ka = kb" using assms(4) a b by (simp add: toItem_def)
  then have "va = vb" using assms(1) a(2) b(2) by (metis eq_key_imp_eq_value)
  then show ?thesis using a b \<open>ka = kb\<close> by simp
qed

text \<open>Both comparisons of strings are collations.\<close>

lemma collation_codeUnitCompare: "collation codeUnitCompare"
  unfolding collation_def codeUnitCompare_def by (auto split: if_splits)

text \<open>Under comparison by code units the order is the lexical order of the pairs.\<close>

lemma queueLe_codeUnitCompare:
  "queueLe codeUnitCompare a b \<longleftrightarrow>
     queueKey a < queueKey b \<or> (queueKey a = queueKey b \<and> itemId a \<le> itemId b)"
  by (auto simp add: queueLe_def codeUnitCompare_def)

lemma toItem_back:
  "(\<lambda>x. (itemId x, \<lparr>v_song = song x, v_addedBy = addedBy x, v_addedAt = addedAt x\<rparr>)) (toItem kv) = kv"
  by (cases kv) (simp add: toItem_def)

lemma weights_inj:
  assumes "primaryWeight c = primaryWeight d" "caseWeight c = caseWeight d"
  shows "c = d"
proof -
  have up: "isUpper c = isUpper d" using assms(2) by (simp add: caseWeight_def split: if_splits)
  have us: "of_char (CHR ''_'') = (95::nat)" by simp
  have nu: "\<not> isUpper (CHR ''_'')" by (simp add: isUpper_def)
  show ?thesis
  proof (cases "c = CHR ''_'' \<or> d = CHR ''_''")
    case True
    then show ?thesis
      using assms(1) up nu by (auto simp add: primaryWeight_def split: if_splits, presburger+)
  next
    case False
    then have "(of_char c :: nat) = of_char d"
      using assms(1) up by (auto simp add: primaryWeight_def split: if_splits)
    then show ?thesis by (rule of_char_eqI)
  qed
qed

lemma weights_inj_list:
  "map primaryWeight a = map primaryWeight b \<Longrightarrow> map caseWeight a = map caseWeight b \<Longrightarrow> a = b"
proof (induction a arbitrary: b)
  case Nil
  then show ?case by simp
next
  case (Cons x xs)
  then obtain y ys where b: "b = y # ys" by (cases b) auto
  then show ?case using Cons weights_inj [of x y] by auto
qed

lemma collation_rootCollation: "collation rootCollation"
proof -
  have anti: "a = b" if "rootCollation a b \<le> 0" "rootCollation b a \<le> 0" for a b
  proof -
    have "map primaryWeight a = map primaryWeight b" "map caseWeight a = map caseWeight b"
      using that by (auto simp add: rootCollation_def split: if_splits)
    then show ?thesis by (rule weights_inj_list)
  qed
  have total: "rootCollation a b \<le> 0 \<or> rootCollation b a \<le> 0" for a b
    by (auto simp add: rootCollation_def)
  have trans: "rootCollation a c \<le> 0" if "rootCollation a b \<le> 0" "rootCollation b c \<le> 0" for a b c
    using that by (auto simp add: rootCollation_def split: if_splits)
  show ?thesis unfolding collation_def using anti total trans by blast
qed

text \<open>The order of the queue under the root collation, written out.\<close>

lemma queueLe_rootCollation:
  "queueLe rootCollation a b \<longleftrightarrow>
     queueKey a < queueKey b \<or>
     (queueKey a = queueKey b \<and>
      (map primaryWeight (itemId a) < map primaryWeight (itemId b) \<or>
       (map primaryWeight (itemId a) = map primaryWeight (itemId b) \<and>
        map caseWeight (itemId a) \<le> map caseWeight (itemId b))))"
  by (auto simp add: queueLe_def rootCollation_def)

text \<open>
  C7, as amended. Both sorts use one comparator: \<open>addedAt\<close> ascending, ties broken by the order
  \<^verbatim>\<open>localeCompare\<close> gives the item ids. Under every collation, \<open>getFirstItem\<close> returns none for
  a missing or empty queue and otherwise the one stored entry that is least in that order,
  with the entry's own song, adder and time; the list passed to the subscribers holds every
  stored entry once, sorted by that order, and \<open>getFirstItem\<close> is its head. Both are the same
  for every order in which the entries of the stored object are listed, so two reads of the
  same data under one collation agree.
\<close>

theorem queue_order_deterministic:
  assumes "collation lc" and "distinct (map fst es)" and "mset es' = mset es"
  shows "getFirstItem lc None = None \<and> queueSubscribe lc None = []
       \<and> getFirstItem lc (Some []) = None
       \<and> (\<forall>a b. compareItems lc a b \<le> 0 \<longleftrightarrow> queueLe lc a b)
       \<and> sorted_wrt (queueLe lc) (queueSubscribe lc (Some es))
       \<and> mset (map (\<lambda>x. (itemId x, \<lparr>v_song = song x, v_addedBy = addedBy x, v_addedAt = addedAt x\<rparr>))
                 (queueSubscribe lc (Some es))) = mset es
       \<and> getFirstItem lc (Some es) = (case queueSubscribe lc (Some es) of [] \<Rightarrow> None | x # _ \<Rightarrow> Some x)
       \<and> (es \<noteq> [] \<longrightarrow>
            (\<exists>f. getFirstItem lc (Some es) = Some f
                 \<and> (itemId f, \<lparr>v_song = song f, v_addedBy = addedBy f, v_addedAt = addedAt f\<rparr>) \<in> set es
                 \<and> (\<forall>kv\<in>set es. queueLe lc f (toItem kv))
                 \<and> (\<forall>kv\<in>set es. queueLe lc (toItem kv) f \<longrightarrow> fst kv = itemId f)))
       \<and> queueSubscribe lc (Some es') = queueSubscribe lc (Some es)
       \<and> getFirstItem lc (Some es') = getFirstItem lc (Some es)"
proof -
  let ?cmp = "compareItems lc"
  let ?le = "queueLe lc"
  let ?items = "map toItem es"
  let ?entry = "\<lambda>x. (itemId x, \<lparr>v_song = song x, v_addedBy = addedBy x, v_addedAt = addedAt x\<rparr>)"
  have total: "\<And>a b. ?le a b \<or> ?le b a" using queueLe_total [OF assms(1)] .
  have trans: "\<And>a b c. ?le a b \<Longrightarrow> ?le b c \<Longrightarrow> ?le a c" using queueLe_trans [OF assms(1)] .
  have cmp: "\<And>a b. ?cmp a b \<le> 0 \<longleftrightarrow> ?le a b" by (rule compareItems_le_iff)
  have sorted: "sorted_wrt ?le (arraySort ?cmp xs)" for xs
    using sorted_arraySort [of ?le ?cmp, OF total trans cmp] .
  have anti: "a = b" if "a \<in> set ?items" "b \<in> set ?items" "?le a b" "?le b a" for a b
    using toItem_same_id [OF assms(2) that(1,2)] queueLe_antisym [OF assms(1) that(3,4)] .
  have unmap: "map ?entry (map toItem xs) = xs" for xs :: "(string \<times> QueueEntry) list"
    by (induction xs) (simp_all add: toItem_back)
  have stored: "mset (map ?entry (arraySort ?cmp ?items)) = mset es"
  proof -
    have "mset (map ?entry (arraySort ?cmp ?items)) = mset (map ?entry ?items)"
      using mset_arraySort [of ?cmp ?items] by (metis mset_map)
    then show ?thesis by (simp only: unmap)
  qed
  have first: "\<exists>f. getFirstItem lc (Some es) = Some f \<and> ?entry f \<in> set es
                 \<and> (\<forall>kv\<in>set es. ?le f (toItem kv))
                 \<and> (\<forall>kv\<in>set es. ?le (toItem kv) f \<longrightarrow> fst kv = itemId f)"
    if ne: "es \<noteq> []"
  proof -
    have "arraySort ?cmp ?items \<noteq> []"
      using ne mset_arraySort [of ?cmp ?items] by (metis map_is_Nil_conv mset_zero_iff)
    then obtain f rest where fr: "arraySort ?cmp ?items = f # rest"
      by (cases "arraySort ?cmp ?items") auto
    have sets: "set ?items = set (f # rest)"
      using mset_arraySort [of ?cmp ?items] fr by (metis mset_eq_setD)
    have least: "\<forall>x\<in>set ?items. ?le f x"
      using sorted [of ?items] fr sets total by auto
    have fin: "f \<in> set ?items" using sets by simp
    then obtain kv where kv: "kv \<in> set es" "f = toItem kv" by auto
    have "?entry f \<in> set es" using kv by (simp only: toItem_back)
    moreover have "\<forall>kv\<in>set es. ?le f (toItem kv)" using least by simp
    moreover have "\<forall>kv\<in>set es. ?le (toItem kv) f \<longrightarrow> fst kv = itemId f"
    proof (intro ballI impI)
      fix kv' assume k: "kv' \<in> set es" and le: "?le (toItem kv') f"
      have "toItem kv' = f" using anti [of "toItem kv'" f] k fin le least by simp
      then show "fst kv' = itemId f" by (auto simp add: toItem_def)
    qed
    ultimately show ?thesis using fr by (simp add: getFirstItem_def)
  qed
  have same: "arraySort ?cmp (map toItem es') = arraySort ?cmp ?items"
  proof (rule sorted_wrt_unique [of _ ?le])
    show "sorted_wrt ?le (arraySort ?cmp (map toItem es'))" by (rule sorted)
    show "sorted_wrt ?le (arraySort ?cmp ?items)" by (rule sorted)
    show "mset (arraySort ?cmp (map toItem es')) = mset (arraySort ?cmp ?items)"
      using assms(3) by (simp add: mset_arraySort)
    have "set (arraySort ?cmp (map toItem es')) = set ?items"
      using assms(3) mset_arraySort [of ?cmp "map toItem es'"] by (metis mset_eq_setD mset_map)
    then show "\<And>a b. a \<in> set (arraySort ?cmp (map toItem es')) \<Longrightarrow>
        b \<in> set (arraySort ?cmp (map toItem es')) \<Longrightarrow> ?le a b \<Longrightarrow> ?le b a \<Longrightarrow> a = b"
      using anti by simp
  qed
  have head: "getFirstItem lc (Some es) = (case queueSubscribe lc (Some es) of [] \<Rightarrow> None | x # _ \<Rightarrow> Some x)"
    by (simp add: getFirstItem_def queueSubscribe_def)
  have empty: "getFirstItem lc None = None" "queueSubscribe lc None = []" "getFirstItem lc (Some []) = None"
    by (simp_all add: getFirstItem_def queueSubscribe_def arraySort_def)
  have s1: "sorted_wrt ?le (queueSubscribe lc (Some es))" using sorted by (simp add: queueSubscribe_def)
  have s2: "mset (map ?entry (queueSubscribe lc (Some es))) = mset es"
    using stored by (simp add: queueSubscribe_def)
  have s3: "queueSubscribe lc (Some es') = queueSubscribe lc (Some es)"
      "getFirstItem lc (Some es') = getFirstItem lc (Some es)"
    using same by (simp_all add: queueSubscribe_def getFirstItem_def)
  show ?thesis
    using empty cmp s1 s2 head first s3 by blast
qed

theorem queue_order_deterministic_witness:
  "collation rootCollation \<and> distinct (map fst exQueue) \<and> mset (rev exQueue) = mset exQueue
   \<and> map itemId (queueSubscribe rootCollation (Some exQueue)) = [''-Nc'', ''-Na'', ''-NB'']
   \<and> queueSubscribe rootCollation (Some (rev exQueue)) = queueSubscribe rootCollation (Some exQueue)
   \<and> getFirstItem rootCollation (Some exQueue) = Some (toItem (''-Nc'', exEntry (Some 100)))"
proof -
  have h1: "collation rootCollation" by (rule collation_rootCollation)
  have h2: "distinct (map fst exQueue)" by (simp add: exQueue_def)
  have h3: "mset (rev exQueue) = mset exQueue" by (rule mset_rev)
  have ev: "queueSubscribe rootCollation (Some exQueue)
      = [toItem (''-Nc'', exEntry (Some 100)), toItem (''-Na'', exEntry (Some 200)),
         toItem (''-NB'', exEntry (Some 200))]"
    by (simp add: queueSubscribe_def arraySort_def compareItems_def rootCollation_def
        primaryWeight_def caseWeight_def isUpper_def toItem_def exQueue_def exEntry_def)
  show ?thesis
    using h1 h2 h3 queue_order_deterministic [OF h1 h2 h3]
    by (simp add: ev toItem_def)
qed

text \<open>
  C7 as stated fails in the tie-break: it is not the lexical order of the item ids. Of two
  entries added at the same time with the ids \<^verbatim>\<open>-NB\<close> and \<^verbatim>\<open>-Na\<close>, the lexically smaller id is
  \<^verbatim>\<open>-NB\<close> (the code unit of \<^verbatim>\<open>B\<close> is below that of \<^verbatim>\<open>a\<close>), and the queue under
  \<^verbatim>\<open>localeCompare\<close> starts with \<^verbatim>\<open>-Na\<close>.
\<close>

theorem queue_tie_not_lexical_counterexample:
  "getFirstItem rootCollation (Some [(''-NB'', exEntry (Some 200)), (''-Na'', exEntry (Some 200))])
     = Some (toItem (''-Na'', exEntry (Some 200)))
   \<and> map itemId (queueSubscribe rootCollation
        (Some [(''-NB'', exEntry (Some 200)), (''-Na'', exEntry (Some 200))])) = [''-Na'', ''-NB'']
   \<and> (''-NB'' :: string) < ''-Na''
   \<and> queueLe codeUnitCompare (toItem (''-NB'', exEntry (Some 200))) (toItem (''-Na'', exEntry (Some 200)))
   \<and> \<not> queueLe codeUnitCompare (toItem (''-Na'', exEntry (Some 200))) (toItem (''-NB'', exEntry (Some 200)))"
  by (simp add: getFirstItem_def queueSubscribe_def arraySort_def compareItems_def rootCollation_def
      primaryWeight_def caseWeight_def isUpper_def toItem_def exEntry_def queueLe_def queueKey_def
      codeUnitCompare_def)

end
